theory Spec2Isabelle
  imports Complex_Main "HOL-Library.Word"
begin

section \<open>Exact fractions (eqsolver.h, eqsolver.cpp)\<close>

text \<open>
  A \<open>struct fraction\<close> holds three \<open>unsigned int\<close> fields. Arithmetic on them wraps
  modulo \<open>2 ^ 32\<close>; the overflow checks of the source widen to 64 bits first, which is
  modelled by \<open>ucast\<close> into \<open>64 word\<close>. The three constants are the macros of
  eqsolver.h, digit for digit.
\<close>

type_synonym u32 = "32 word"
type_synonym u64 = "64 word"

record fraction =
  numerator :: u32
  denominator :: u32
  sign :: u32

definition UINT32MAX :: u64 where
  "UINT32MAX = 42946972195"

definition INT32MAX :: u64 where
  "INT32MAX = 2147483647"

definition INT32MIN :: u64 where
  "INT32MIN = - 2147483648"

text \<open>The value every overflow exit of \<open>multiply\<close>, \<open>divide\<close> and \<open>add\<close> returns.\<close>

definition zeroFraction :: fraction where
  "zeroFraction = \<lparr>numerator = 0, denominator = 0, sign = 0\<rparr>"

text \<open>Euclid's loop of \<open>reduce\<close>: \<open>while (num2) { temp = num1; num1 = num2; num2 = temp % num2; }\<close>\<close>

function gcf_loop :: "u32 \<Rightarrow> u32 \<Rightarrow> u32" where
  "gcf_loop num1 num2 = (if num2 = 0 then num1 else gcf_loop num2 (num1 mod num2))"
  by pat_completeness auto
termination
  by (relation "measure (\<lambda>(num1, num2). unat num2)")
     (auto simp: unat_mod unat_gt_0)

definition reduce :: "fraction \<Rightarrow> fraction" where
  "reduce unreducedFraction =
     (if numerator unreducedFraction = 0 \<or> denominator unreducedFraction = 0
      then \<lparr>numerator = 0, denominator = 0, sign = 0\<rparr>
      else if numerator unreducedFraction = denominator unreducedFraction
      then \<lparr>numerator = 1, denominator = 1, sign = sign unreducedFraction\<rparr>
      else let gcf = gcf_loop (numerator unreducedFraction) (denominator unreducedFraction)
           in \<lparr>numerator = numerator unreducedFraction div gcf,
               denominator = denominator unreducedFraction div gcf,
               sign = sign unreducedFraction\<rparr>)"

text \<open>
  The sign block shared by \<open>multiply\<close> and \<open>divide\<close>. The member \<open>overFlow\<close> is threaded
  through as a flag: each operation takes its current value and returns the new one.
\<close>

definition product_sign :: "fraction \<Rightarrow> fraction \<Rightarrow> u32" where
  "product_sign fraction1 fraction2 =
     (if sign fraction1 = 1
      then (if sign fraction2 = 1 then 0 else 1)
      else (if sign fraction2 = 1 then 1 else 0))"

definition multiply :: "fraction \<Rightarrow> fraction \<Rightarrow> bool \<Rightarrow> fraction \<times> bool" where
  "multiply fraction1 fraction2 ovf =
     (if UINT32MAX < (ucast (numerator fraction1) :: u64) * ucast (numerator fraction2)
      then (zeroFraction, True)
      else if UINT32MAX < (ucast (denominator fraction1) :: u64) * ucast (denominator fraction2)
      then (zeroFraction, True)
      else let result_numerator = numerator fraction1 * numerator fraction2;
               result_denominator = denominator fraction1 * denominator fraction2
           in if result_numerator \<noteq> 0 \<and> result_denominator = 0
              then (fraction1, ovf)
              else (reduce \<lparr>numerator = result_numerator, denominator = result_denominator,
                             sign = product_sign fraction1 fraction2\<rparr>, ovf))"

definition divide_fraction :: "fraction \<Rightarrow> fraction \<Rightarrow> bool \<Rightarrow> fraction \<times> bool" where
  "divide_fraction dividend divisor ovf =
     (if UINT32MAX < (ucast (numerator dividend) :: u64) * ucast (denominator divisor)
      then (zeroFraction, True)
      else if UINT32MAX < (ucast (denominator dividend) :: u64) * ucast (numerator divisor)
      then (zeroFraction, True)
      else let result_numerator = numerator dividend * denominator divisor;
               result_denominator = denominator dividend * numerator divisor
           in if result_numerator \<noteq> 0 \<and> result_denominator = 0
              then (dividend, ovf)
              else (reduce \<lparr>numerator = result_numerator, denominator = result_denominator,
                             sign = product_sign dividend divisor\<rparr>, ovf))"

text \<open>
  \<open>add\<close>, second branch (some operand has a non-zero sign field): the checks run on
  \<open>INT64\<close> values, compared as signed numbers. The second operand's positive case
  compares \<open>num1OverflowCheckWithSign\<close> once more, as the source does.
\<close>

definition out_of_int32 :: "u64 \<Rightarrow> bool" where
  "out_of_int32 overflowCheckWithSign \<longleftrightarrow>
     sint INT32MAX < sint overflowCheckWithSign \<or> sint overflowCheckWithSign < sint INT32MIN"

definition numeratorWithSign64 :: "fraction \<Rightarrow> u64" where
  "numeratorWithSign64 f =
     (if sign f = 1 then ucast (numerator f) * (- 1) else ucast (numerator f))"

definition numeratorWithSign32 :: "fraction \<Rightarrow> u32" where
  "numeratorWithSign32 f = (if sign f = 1 then numerator f * (- 1) else numerator f)"

definition add_signed :: "fraction \<Rightarrow> fraction \<Rightarrow> (u32 \<times> u32) option" where
  "add_signed fraction1 fraction2 =
     (let num1OverflowCheckWithSign = numeratorWithSign64 fraction1;
          num2OverflowCheckWithSign = numeratorWithSign64 fraction2
      in if (if sign fraction1 = 1 then sint num1OverflowCheckWithSign < sint INT32MIN
             else sint INT32MAX < sint num1OverflowCheckWithSign) then None
         else if (if sign fraction2 = 1 then sint num2OverflowCheckWithSign < sint INT32MIN
                  else sint INT32MAX < sint num1OverflowCheckWithSign) then None
         else if out_of_int32 (num1OverflowCheckWithSign * ucast (denominator fraction2)) then None
         else if out_of_int32 (num2OverflowCheckWithSign * ucast (denominator fraction1)) then None
         else if out_of_int32 (num1OverflowCheckWithSign * ucast (denominator fraction2)
                               + num2OverflowCheckWithSign * ucast (denominator fraction1)) then None
         else let num1 = numeratorWithSign32 fraction1;
                  num2 = numeratorWithSign32 fraction2;
                  resultNum = num1 * denominator fraction2 + num2 * denominator fraction1
              in Some (if sint resultNum < 0 then - resultNum else resultNum,
                       if sint resultNum < 0 then 1 else 0))"

text \<open>
  \<open>add\<close>, first branch (both sign fields 0): only \<open>result.numerator\<close> is assigned, so
  \<open>result.sign\<close> keeps whatever the uninitialised local held. That value is the
  parameter \<open>uninitialised\<close>.
\<close>

definition add_unsigned :: "u32 \<Rightarrow> fraction \<Rightarrow> fraction \<Rightarrow> (u32 \<times> u32) option" where
  "add_unsigned uninitialised fraction1 fraction2 =
     (if UINT32MAX < (ucast (numerator fraction1) :: u64) * ucast (denominator fraction2)
                     + ucast (numerator fraction2) * ucast (denominator fraction1)
      then None
      else Some (numerator fraction1 * denominator fraction2
                 + numerator fraction2 * denominator fraction1, uninitialised))"

definition add :: "u32 \<Rightarrow> fraction \<Rightarrow> fraction \<Rightarrow> bool \<Rightarrow> fraction \<times> bool" where
  "add uninitialised fraction1 fraction2 ovf =
     (if numerator fraction1 = 0 \<and> denominator fraction1 = 0 then (fraction2, ovf)
      else if numerator fraction2 = 0 \<and> denominator fraction2 = 0 then (fraction1, ovf)
      else case (if sign fraction1 = 0 \<and> sign fraction2 = 0
                 then add_unsigned uninitialised fraction1 fraction2
                 else add_signed fraction1 fraction2) of
             None \<Rightarrow> (zeroFraction, True)
           | Some (result_numerator, result_sign) \<Rightarrow>
               if UINT32MAX < (ucast (denominator fraction1) :: u64) * ucast (denominator fraction2)
               then (zeroFraction, True)
               else let result_denominator = denominator fraction1 * denominator fraction2
                    in if result_numerator \<noteq> 0 \<and> result_denominator = 0
                       then (fraction1, ovf)
                       else (reduce \<lparr>numerator = result_numerator,
                                      denominator = result_denominator,
                                      sign = result_sign\<rparr>, ovf))"


section \<open>The solver object\<close>

text \<open>
  The two matrices are lists of rows; a null pointer is the empty list. Row and column
  arguments are natural numbers; no loop counter of the source wraps as long as there are
  at most 32767 equations. \<open>setSystemEqCount\<close> takes the outcome of its allocations as a
  parameter; after a failed allocation the three pointers are taken to be null.
\<close>

type_synonym matrix = "fraction list list"

record eqsolver =
  coefficient :: matrix
  originalCoefficient :: matrix
  eqCount :: nat
  overFlow :: bool
  solutionCoefficient :: "fraction list"

definition SOLVED :: u32 where "SOLVED = 1"
definition NO_SOLUTIONS :: u32 where "NO_SOLUTIONS = 2"
definition INFINITE_SOLUTIONS :: u32 where "INFINITE_SOLUTIONS = 3"
definition MEMORY_ERROR :: u32 where "MEMORY_ERROR = 4"
definition OVERFLOW :: u32 where "OVERFLOW = 5"

definition constructor :: eqsolver where
  "constructor = \<lparr>coefficient = [], originalCoefficient = [], eqCount = 0,
                   overFlow = False, solutionCoefficient = []\<rparr>"

definition setSystemEqCount :: "bool \<Rightarrow> nat \<Rightarrow> eqsolver \<Rightarrow> u32 \<times> eqsolver" where
  "setSystemEqCount allocated count s =
     (if count = 0 then (1, s)
      else if \<not> allocated
      then (0, s\<lparr>coefficient := [], originalCoefficient := [], eqCount := count,
                 solutionCoefficient := []\<rparr>)
      else (1, s\<lparr>coefficient := replicate count (replicate (count + 1) zeroFraction),
                 originalCoefficient := replicate count (replicate (count + 1) zeroFraction),
                 eqCount := count,
                 solutionCoefficient := replicate count zeroFraction\<rparr>))"

definition out_of_bounds :: "eqsolver \<Rightarrow> nat \<Rightarrow> nat \<Rightarrow> bool" where
  "out_of_bounds s row column \<longleftrightarrow>
     row > eqCount s \<or> column > eqCount s + 1 \<or> row < 1 \<or> column < 1"

definition store :: "matrix \<Rightarrow> nat \<Rightarrow> nat \<Rightarrow> fraction \<Rightarrow> matrix" where
  "store m i j f = m[i := (m ! i)[j := f]]"

definition setCoefficient :: "nat \<Rightarrow> nat \<Rightarrow> 16 word \<Rightarrow> eqsolver \<Rightarrow> eqsolver" where
  "setCoefficient row column val s =
     (if out_of_bounds s row column then s
      else let f = \<lparr>numerator = (if sint val < 0 then word_of_int \<bar>sint val\<bar>
                                   else word_of_int (sint val)),
                     denominator = (if val = 0 then 0 else 1),
                     sign = (if sint val < 0 then 1 else 0)\<rparr>
           in s\<lparr>coefficient := store (coefficient s) (row - 1) (column - 1) f,
                originalCoefficient := store (originalCoefficient s) (row - 1) (column - 1) f\<rparr>)"

definition setCoefficientFraction ::
    "nat \<Rightarrow> nat \<Rightarrow> 16 word \<Rightarrow> 16 word \<Rightarrow> eqsolver \<Rightarrow> eqsolver" where
  "setCoefficientFraction row column num den s =
     (if out_of_bounds s row column then s
      else let f = \<lparr>numerator = (if den = 0 then 0 else word_of_int \<bar>sint num\<bar>),
                     denominator = (if den = 0 then 0 else word_of_int \<bar>sint den\<bar>),
                     sign = (if sint num < 0
                             then (if sint den < 0 then 0 else 1)
                             else (if sint den < 0 then 1 else 0))\<rparr>
           in s\<lparr>coefficient := store (coefficient s) (row - 1) (column - 1) f,
                originalCoefficient := store (originalCoefficient s) (row - 1) (column - 1) f\<rparr>)"

definition getOriginalMatrixCoefficient :: "eqsolver \<Rightarrow> nat \<Rightarrow> nat \<Rightarrow> u32" where
  "getOriginalMatrixCoefficient s row column =
     (if out_of_bounds s row column then 0
      else let f = originalCoefficient s ! (row - 1) ! (column - 1)
           in if sign f = 1 then numerator f * (- 1) else numerator f)"

definition getOriginalMatrixCoefficientFraction :: "eqsolver \<Rightarrow> nat \<Rightarrow> nat \<Rightarrow> u32 \<times> u32" where
  "getOriginalMatrixCoefficientFraction s row column =
     (if out_of_bounds s row column then (0, 0)
      else let f = originalCoefficient s ! (row - 1) ! (column - 1)
           in (if sign f = 1 then numerator f * (- 1) else numerator f, denominator f))"

definition getAlteredMatrixCoefficient ::
    "eqsolver \<Rightarrow> nat \<Rightarrow> nat \<Rightarrow> fraction \<Rightarrow> fraction" where
  "getAlteredMatrixCoefficient s row column coefficientValue =
     (if out_of_bounds s row column then coefficientValue
      else coefficient s ! (row - 1) ! (column - 1))"

section \<open>Row operations on a given matrix\<close>

text \<open>
  The private overloads that take \<open>coeffPtr\<close>. Each loop stores the result of the
  operation first and tests the flag afterwards, so the entry that overflowed is
  overwritten with the zero result before the loop stops.
\<close>

definition swapRows :: "nat \<Rightarrow> nat \<Rightarrow> nat \<Rightarrow> matrix \<Rightarrow> matrix" where
  "swapRows n row1 row2 coeffPtr =
     (if row1 < 1 \<or> row2 < 1 \<or> row1 > n \<or> row2 > n then coeffPtr
      else (coeffPtr[row1 - 1 := coeffPtr ! (row2 - 1)])[row2 - 1 := coeffPtr ! (row1 - 1)])"

function multiplyRow_loop ::
    "nat \<Rightarrow> nat \<Rightarrow> fraction \<Rightarrow> nat \<Rightarrow> matrix \<times> bool \<Rightarrow> matrix \<times> bool" where
  "multiplyRow_loop n row multiplier column (coeffPtr, ovf) =
     (if column < n + 1
      then (case multiply (coeffPtr ! (row - 1) ! column) multiplier ovf of
              (r, ovf') \<Rightarrow>
                if ovf' then (store coeffPtr (row - 1) column r, ovf')
                else multiplyRow_loop n row multiplier (column + 1)
                       (store coeffPtr (row - 1) column r, ovf'))
      else (coeffPtr, ovf))"
  by pat_completeness auto
termination
  by (relation "measure (\<lambda>(n, row, multiplier, column, st). n + 1 - column)") auto

declare multiplyRow_loop.simps [simp del]

definition multiplyMatrixRow ::
    "nat \<Rightarrow> nat \<Rightarrow> fraction \<Rightarrow> matrix \<times> bool \<Rightarrow> matrix \<times> bool" where
  "multiplyMatrixRow n row multiplier st =
     (if row < 1 \<or> row > n then st else multiplyRow_loop n row multiplier 0 st)"

function divideRow_loop ::
    "nat \<Rightarrow> nat \<Rightarrow> fraction \<Rightarrow> nat \<Rightarrow> matrix \<times> bool \<Rightarrow> matrix \<times> bool" where
  "divideRow_loop n row divisor column (coeffPtr, ovf) =
     (if column < n + 1
      then (case divide_fraction (coeffPtr ! (row - 1) ! column) divisor ovf of
              (r, ovf') \<Rightarrow>
                if ovf' then (store coeffPtr (row - 1) column r, ovf')
                else divideRow_loop n row divisor (column + 1)
                       (store coeffPtr (row - 1) column r, ovf'))
      else (coeffPtr, ovf))"
  by pat_completeness auto
termination
  by (relation "measure (\<lambda>(n, row, divisor, column, st). n + 1 - column)") auto

declare divideRow_loop.simps [simp del]

definition divideMatrixRow ::
    "nat \<Rightarrow> nat \<Rightarrow> fraction \<Rightarrow> matrix \<times> bool \<Rightarrow> matrix \<times> bool" where
  "divideMatrixRow n row divisor st =
     (if row < 1 \<or> row > n then st else divideRow_loop n row divisor 0 st)"

function addRows_loop ::
    "(nat \<Rightarrow> u32) \<Rightarrow> nat \<Rightarrow> nat \<Rightarrow> nat \<Rightarrow> nat \<Rightarrow> matrix \<times> bool \<Rightarrow> matrix \<times> bool" where
  "addRows_loop uninitialised n row rowToAdd column (coeffPtr, ovf) =
     (if column < n + 1
      then (case add (uninitialised column) (coeffPtr ! (row - 1) ! column)
                     (coeffPtr ! (rowToAdd - 1) ! column) ovf of
              (r, ovf') \<Rightarrow>
                if ovf' then (store coeffPtr (row - 1) column r, ovf')
                else addRows_loop uninitialised n row rowToAdd (column + 1)
                       (store coeffPtr (row - 1) column r, ovf'))
      else (coeffPtr, ovf))"
  by pat_completeness auto
termination
  by (relation "measure (\<lambda>(u, n, row, rowToAdd, column, st). n + 1 - column)") auto

declare addRows_loop.simps [simp del]

definition addMatrixRows ::
    "(nat \<Rightarrow> u32) \<Rightarrow> nat \<Rightarrow> nat \<Rightarrow> nat \<Rightarrow> matrix \<times> bool \<Rightarrow> matrix \<times> bool" where
  "addMatrixRows uninitialised n row rowToAdd st =
     (if row < 1 \<or> row > n \<or> rowToAdd < 1 \<or> rowToAdd > n then st
      else addRows_loop uninitialised n row rowToAdd 0 st)"


section \<open>solveSystem\<close>

text \<open>
  What a call takes from outside the object: whether its allocations succeed, and the
  values found in uninitialised locals (the \<open>result.sign\<close> of each call of \<open>add\<close>,
  indexed by the place of the call, and the sign of \<open>solutionCheck\<close>).
  A \<open>step\<close> is how a part of the function ends: it falls through with a value, it
  returns a status together with the flag, or it reads outside the working matrix.
\<close>

record env =
  allocated :: bool
  uninit_add :: "nat \<Rightarrow> nat \<Rightarrow> nat \<Rightarrow> u32"
  uninit_total :: "nat \<Rightarrow> nat \<Rightarrow> u32"
  uninit_solutionCheck :: u32

datatype 'a step = OutOfBounds | Return u32 bool | Next 'a

definition isZero :: "fraction \<Rightarrow> bool" where
  "isZero f \<longleftrightarrow> numerator f = 0 \<and> denominator f = 0"

function findPivot :: "nat \<Rightarrow> matrix \<Rightarrow> nat \<Rightarrow> nat \<Rightarrow> nat option" where
  "findPivot n coeffPtr column rowCounter =
     (if rowCounter < n
      then (if numerator (coeffPtr ! rowCounter ! column) \<noteq> 0
               \<and> denominator (coeffPtr ! rowCounter ! column) \<noteq> 0
            then Some rowCounter
            else findPivot n coeffPtr column (rowCounter + 1))
      else None)"
  by pat_completeness auto
termination
  by (relation "measure (\<lambda>(n, coeffPtr, column, rowCounter). n - rowCounter)") auto

declare findPivot.simps [simp del]

function rowNonZeroFound :: "nat \<Rightarrow> matrix \<Rightarrow> nat \<Rightarrow> nat \<Rightarrow> bool \<Rightarrow> bool" where
  "rowNonZeroFound n coeffPtr row column nonZeroFound =
     (if column \<le> n
      then rowNonZeroFound n coeffPtr row (column + 1)
             (if numerator (coeffPtr ! row ! column) \<noteq> 0 then True else nonZeroFound)
      else nonZeroFound)"
  by pat_completeness auto
termination
  by (relation "measure (\<lambda>(n, coeffPtr, row, column, found). n + 1 - column)") auto

declare rowNonZeroFound.simps [simp del]

function zeroRowScan :: "nat \<Rightarrow> matrix \<Rightarrow> nat \<Rightarrow> u32" where
  "zeroRowScan n coeffPtr row =
     (if row < n
      then (if \<not> rowNonZeroFound n coeffPtr row 0 False then INFINITE_SOLUTIONS
            else zeroRowScan n coeffPtr (row + 1))
      else NO_SOLUTIONS)"
  by pat_completeness auto
termination
  by (relation "measure (\<lambda>(n, coeffPtr, row). n - row)") auto

declare zeroRowScan.simps [simp del]

text \<open>
  The search below the pivot row. When no row qualifies the column advances while the row
  stays; the source tests \<open>column == eqCount\<close> only, so a column already past the last one
  would be read out of bounds.
\<close>

function fullPivot :: "nat \<Rightarrow> matrix \<Rightarrow> nat \<Rightarrow> nat \<Rightarrow> (matrix \<times> nat) step" where
  "fullPivot n coeffPtr row column =
     (case findPivot n coeffPtr column (row + 1) of
        Some rowCounter \<Rightarrow> Next (swapRows n (row + 1) (rowCounter + 1) coeffPtr, column)
      | None \<Rightarrow>
          if column + 1 = n
          then (if isZero (coeffPtr ! row ! (column + 1)) then Return INFINITE_SOLUTIONS False
                else Return (zeroRowScan n coeffPtr 0) False)
          else if column + 1 < n then fullPivot n coeffPtr row (column + 1)
          else OutOfBounds)"
  by pat_completeness auto
termination
  by (relation "measure (\<lambda>(n, coeffPtr, row, column). n - column)") auto

declare fullPivot.simps [simp del]

function negateRow_loop :: "nat \<Rightarrow> nat \<Rightarrow> nat \<Rightarrow> matrix \<Rightarrow> matrix" where
  "negateRow_loop n row i coeffPtr =
     (if i \<le> n
      then negateRow_loop n row (i + 1)
             (if isZero (coeffPtr ! row ! i) then coeffPtr
              else store coeffPtr row i
                     ((coeffPtr ! row ! i)\<lparr>sign := (if sign (coeffPtr ! row ! i) = 0 then 1 else 0)\<rparr>))
      else coeffPtr)"
  by pat_completeness auto
termination
  by (relation "measure (\<lambda>(n, row, i, coeffPtr). n + 1 - i)") auto

declare negateRow_loop.simps [simp del]

text \<open>The body shared by the two clearing loops (above and below the pivot row).\<close>

definition clearRow ::
    "env \<Rightarrow> nat \<Rightarrow> nat \<Rightarrow> nat \<Rightarrow> nat \<Rightarrow> matrix \<times> bool \<Rightarrow> (matrix \<times> bool) step" where
  "clearRow e n row column rowCounter st =
     (if isZero (fst st ! rowCounter ! column) then Next st
      else let multiplier = fst st ! rowCounter ! column;
               st1 = multiplyMatrixRow n (row + 1) multiplier st
           in if snd st1 then Return OVERFLOW (snd st1)
              else let st2 = addMatrixRows (uninit_add e row rowCounter) n (rowCounter + 1) (row + 1) st1
                   in if snd st2 then Return OVERFLOW (snd st2)
                      else let st3 = divideMatrixRow n (row + 1) multiplier st2
                           in if snd st3 then Return OVERFLOW (snd st3) else Next st3)"

function clearAbove ::
    "env \<Rightarrow> nat \<Rightarrow> nat \<Rightarrow> nat \<Rightarrow> int \<Rightarrow> matrix \<times> bool \<Rightarrow> (matrix \<times> bool) step" where
  "clearAbove e n row column rowCounter st =
     (if rowCounter \<ge> 0
      then (case clearRow e n row column (nat rowCounter) st of
              Next st' \<Rightarrow> clearAbove e n row column (rowCounter - 1) st'
            | Return status ovf \<Rightarrow> Return status ovf
            | OutOfBounds \<Rightarrow> OutOfBounds)
      else Next st)"
  by pat_completeness auto
termination
  by (relation "measure (\<lambda>(e, n, row, column, rowCounter, st). nat (rowCounter + 1))") auto

declare clearAbove.simps [simp del]

function clearBelow ::
    "env \<Rightarrow> nat \<Rightarrow> nat \<Rightarrow> nat \<Rightarrow> nat \<Rightarrow> matrix \<times> bool \<Rightarrow> (matrix \<times> bool) step" where
  "clearBelow e n row column rowCounter st =
     (if rowCounter < n
      then (case clearRow e n row column rowCounter st of
              Next st' \<Rightarrow> clearBelow e n row column (rowCounter + 1) st'
            | Return status ovf \<Rightarrow> Return status ovf
            | OutOfBounds \<Rightarrow> OutOfBounds)
      else Next st)"
  by pat_completeness auto
termination
  by (relation "measure (\<lambda>(e, n, row, column, rowCounter, st). n - rowCounter)") auto

declare clearBelow.simps [simp del]

definition clearColumn ::
    "env \<Rightarrow> nat \<Rightarrow> nat \<Rightarrow> nat \<Rightarrow> matrix \<times> bool \<Rightarrow> (matrix \<times> bool) step" where
  "clearColumn e n row column st =
     (case clearAbove e n row column (int row - 1) (negateRow_loop n row 0 (fst st), snd st) of
        Next st1 \<Rightarrow>
          (case clearBelow e n row column (row + 1) st1 of
             Next st2 \<Rightarrow> Next (negateRow_loop n row 0 (fst st2), snd st2)
           | Return status ovf \<Rightarrow> Return status ovf
           | OutOfBounds \<Rightarrow> OutOfBounds)
      | Return status ovf \<Rightarrow> Return status ovf
      | OutOfBounds \<Rightarrow> OutOfBounds)"

definition isOne :: "fraction \<Rightarrow> bool" where
  "isOne f \<longleftrightarrow> numerator f = 1 \<and> denominator f = 1 \<and> sign f = 0"

definition reducePivot ::
    "env \<Rightarrow> nat \<Rightarrow> nat \<Rightarrow> nat \<Rightarrow> matrix \<times> bool \<Rightarrow> (matrix \<times> bool) step" where
  "reducePivot e n row column st =
     (if \<not> isOne (fst st ! row ! column)
      then let st1 = divideMatrixRow n (row + 1) (fst st ! row ! column) st
           in if snd st1 then Return OVERFLOW (snd st1) else clearColumn e n row column st1
      else clearColumn e n row column st)"

lemma findPivot_range:
  "findPivot n coeffPtr column rowCounter = Some r \<Longrightarrow> rowCounter \<le> r \<and> r < n"
proof (induction n coeffPtr column rowCounter rule: findPivot.induct)
  case (1 n coeffPtr column rowCounter)
  from "1.prems" show ?case
    by (subst (asm) findPivot.simps) (auto split: if_splits dest: "1.IH")
qed

lemma fullPivot_column:
  "fullPivot n coeffPtr row column = Next (m, c) \<Longrightarrow> column \<le> c \<and> (column < n \<longrightarrow> c < n)"
proof (induction n coeffPtr row column rule: fullPivot.induct)
  case (1 n coeffPtr row column)
  show ?case
  proof (cases "findPivot n coeffPtr column (row + 1)")
    case (Some rowCounter)
    with "1.prems" show ?thesis
      by (subst (asm) fullPivot.simps) auto
  next
    case None
    with "1.prems" have further: "column + 1 \<noteq> n" "column + 1 < n"
      and "fullPivot n coeffPtr row (column + 1) = Next (m, c)"
      by (subst (asm) fullPivot.simps, simp split: if_splits)+
    with "1.IH" [OF None] have "column + 1 \<le> c \<and> (column + 1 < n \<longrightarrow> c < n)"
      by simp
    with further show ?thesis by simp
  qed
qed

function reduceColumns ::
    "env \<Rightarrow> nat \<Rightarrow> nat \<Rightarrow> nat \<Rightarrow> matrix \<times> bool \<Rightarrow> (matrix \<times> bool) step" where
  "reduceColumns e n row column st =
     (if column < n
      then (case (if isZero (fst st ! row ! column) then fullPivot n (fst st) row column
                  else Next (fst st, column)) of
              Next (coeffPtr, column') \<Rightarrow>
                (case reducePivot e n row column' (coeffPtr, snd st) of
                   Next st' \<Rightarrow> reduceColumns e n (row + 1) (column' + 1) st'
                 | Return status ovf \<Rightarrow> Return status ovf
                 | OutOfBounds \<Rightarrow> OutOfBounds)
            | Return status ovf \<Rightarrow> Return status (snd st)
            | OutOfBounds \<Rightarrow> OutOfBounds)
      else Next st)"
  by pat_completeness auto
termination
proof (relation "measure (\<lambda>(e, n, row, column, st). n - column)", goal_cases)
  case 1
  show ?case by simp
next
  case (2 e n row column st x3 coeffPtr column' st')
  then have "column \<le> column' \<and> column' < n"
    using fullPivot_column [of n "fst st" row column coeffPtr column']
    by (auto split: if_splits)
  then show ?case by auto
qed

declare reduceColumns.simps [simp del]

text \<open>The check of the result against the original matrix.\<close>

function totalRow ::
    "env \<Rightarrow> nat \<Rightarrow> matrix \<Rightarrow> matrix \<Rightarrow> nat \<Rightarrow> nat \<Rightarrow> fraction \<times> bool \<Rightarrow> (fraction \<times> bool) step" where
  "totalRow e n original coeffPtr i j (solutionCheck, ovf) =
     (if j < n
      then (case multiply (original ! i ! j) (coeffPtr ! j ! n) ovf of
              (product, ovf1) \<Rightarrow>
                (case add (uninit_total e i j) solutionCheck product ovf1 of
                   (solutionCheck', ovf2) \<Rightarrow>
                     if ovf2 then Return OVERFLOW ovf2
                     else totalRow e n original coeffPtr i (j + 1) (solutionCheck', ovf2)))
      else Next (solutionCheck, ovf))"
  by pat_completeness auto
termination
  by (relation "measure (\<lambda>(e, n, original, coeffPtr, i, j, st). n - j)") auto

declare totalRow.simps [simp del]

definition differs :: "fraction \<Rightarrow> fraction \<Rightarrow> bool" where
  "differs solutionCheck constant \<longleftrightarrow>
     numerator solutionCheck \<noteq> numerator constant
     \<or> denominator solutionCheck \<noteq> denominator constant
     \<or> sign solutionCheck \<noteq> sign constant"

function checkRows ::
    "env \<Rightarrow> nat \<Rightarrow> matrix \<Rightarrow> matrix \<Rightarrow> nat \<Rightarrow> fraction \<times> bool \<Rightarrow> (fraction \<times> bool) step" where
  "checkRows e n original coeffPtr i (solutionCheck, ovf) =
     (if i < n
      then (case totalRow e n original coeffPtr i 0
                   (solutionCheck\<lparr>numerator := 0, denominator := 0\<rparr>, ovf) of
              Next (solutionCheck', ovf') \<Rightarrow>
                if differs solutionCheck' (original ! i ! n) then Return NO_SOLUTIONS ovf'
                else checkRows e n original coeffPtr (i + 1) (solutionCheck', ovf')
            | Return status ovf' \<Rightarrow> Return status ovf'
            | OutOfBounds \<Rightarrow> OutOfBounds)
      else Next (solutionCheck, ovf))"
  by pat_completeness auto
termination
  by (relation "measure (\<lambda>(e, n, original, coeffPtr, i, st). n - i)") auto

declare checkRows.simps [simp del]

text \<open>For no equations the source indexes row \<open>eqCount - 1 = -1\<close>.\<close>

definition checkResult ::
    "env \<Rightarrow> nat \<Rightarrow> matrix \<Rightarrow> matrix \<times> bool \<Rightarrow> (fraction \<times> bool) step" where
  "checkResult e n original st =
     (if n = 0 then OutOfBounds
      else if isZero (fst st ! (n - 1) ! (n - 1))
      then (if isZero (fst st ! (n - 1) ! n) then Return INFINITE_SOLUTIONS (snd st)
            else Return NO_SOLUTIONS (snd st))
      else checkRows e n original (fst st) 0
             (\<lparr>numerator = 0, denominator = 0, sign = uninit_solutionCheck e\<rparr>, snd st))"

function copySolution :: "nat \<Rightarrow> matrix \<Rightarrow> nat \<Rightarrow> fraction list \<Rightarrow> fraction list" where
  "copySolution n coeffPtr i solution =
     (if i < n then copySolution n coeffPtr (i + 1) (solution[i := coeffPtr ! i ! n])
      else solution)"
  by pat_completeness auto
termination
  by (relation "measure (\<lambda>(n, coeffPtr, i, solution). n - i)") auto

declare copySolution.simps [simp del]

definition workingCopy :: "nat \<Rightarrow> matrix \<Rightarrow> matrix" where
  "workingCopy n original = map (take (n + 1)) (take n original)"

definition solveSystem :: "env \<Rightarrow> eqsolver \<Rightarrow> (u32 \<times> eqsolver) option" where
  "solveSystem e s =
     (if \<not> allocated e then Some (MEMORY_ERROR, s\<lparr>overFlow := False\<rparr>)
      else case reduceColumns e (eqCount s) 0 0
                  (workingCopy (eqCount s) (originalCoefficient s), False) of
             OutOfBounds \<Rightarrow> None
           | Return status ovf \<Rightarrow> Some (status, s\<lparr>overFlow := ovf\<rparr>)
           | Next st \<Rightarrow>
               (case checkResult e (eqCount s) (originalCoefficient s) st of
                  OutOfBounds \<Rightarrow> None
                | Return status ovf \<Rightarrow> Some (status, s\<lparr>overFlow := ovf\<rparr>)
                | Next (solutionCheck, ovf) \<Rightarrow>
                    Some (SOLVED,
                          s\<lparr>overFlow := ovf,
                            solutionCoefficient :=
                              copySolution (eqCount s) (fst st) 0 (solutionCoefficient s)\<rparr>)))"


section \<open>Notions used to state the properties\<close>

text \<open>
  A system is configured when it has between 1 and 32767 equations and its storage has the
  shape \<open>setSystemEqCount\<close> allocates: \<open>eqCount\<close> rows of \<open>eqCount + 1\<close> entries in both
  matrices, and \<open>eqCount\<close> solution entries.
\<close>

definition configured :: "eqsolver \<Rightarrow> bool" where
  "configured s \<longleftrightarrow>
     0 < eqCount s \<and> eqCount s \<le> 32767
     \<and> length (originalCoefficient s) = eqCount s
     \<and> (\<forall>r \<in> set (originalCoefficient s). length r = eqCount s + 1)
     \<and> length (coefficient s) = eqCount s
     \<and> (\<forall>r \<in> set (coefficient s). length r = eqCount s + 1)
     \<and> length (solutionCoefficient s) = eqCount s"

text \<open>
  Substituting a solution vector into one row: the products of the row's coefficients with
  the solution values, summed from the zero fraction with the program's own \<open>multiply\<close>
  and \<open>add\<close>.
\<close>

definition substitute :: "(nat \<Rightarrow> u32) \<Rightarrow> nat \<Rightarrow> fraction list \<Rightarrow> fraction list \<Rightarrow> fraction" where
  "substitute uninitialised n row solution =
     foldl (\<lambda>summed j. fst (add (uninitialised j) summed
                                (fst (multiply (row ! j) (solution ! j) False)) False))
       zeroFraction [0..<n]"

text \<open>The numerator of a fraction as a signed integer, and the range of a 32-bit \<open>int\<close>.\<close>

definition signed_numerator :: "fraction \<Rightarrow> int" where
  "signed_numerator f = (if sign f = 1 then - uint (numerator f) else uint (numerator f))"

definition fits_int32 :: "int \<Rightarrow> bool" where
  "fits_int32 k \<longleftrightarrow> - 2147483648 \<le> k \<and> k \<le> 2147483647"

text \<open>
  Systems given by their rows of integer coefficients: sized by \<open>setSystemEqCount\<close> and
  filled cell by cell with \<open>setCoefficient\<close>.
\<close>

fun setRow :: "nat \<Rightarrow> nat \<Rightarrow> 16 word list \<Rightarrow> eqsolver \<Rightarrow> eqsolver" where
  "setRow row column [] s = s"
| "setRow row column (v # vs) s = setRow row (column + 1) vs (setCoefficient row column v s)"

fun setRows :: "nat \<Rightarrow> 16 word list list \<Rightarrow> eqsolver \<Rightarrow> eqsolver" where
  "setRows row [] s = s"
| "setRows row (r # rs) s = setRows (row + 1) rs (setRow row 1 r s)"

definition systemOf :: "16 word list list \<Rightarrow> eqsolver" where
  "systemOf rows = setRows 1 rows (snd (setSystemEqCount True (length rows) constructor))"

definition dependentRows :: eqsolver where
  "dependentRows = systemOf [[1, 1, 2], [2, 2, 4]]"

definition contradictoryRows :: eqsolver where
  "contradictoryRows = systemOf [[1, 1, 2], [1, 1, 5]]"

definition independentRows :: eqsolver where
  "independentRows = systemOf [[2, 1, 5], [1, - 1, 1]]"

definition wrappedRows :: eqsolver where
  "wrappedRows = systemOf [[9527, - 3, - 2], [0, 493, - 7]]"

text \<open>
  The rational number a fraction stands for, and the left-hand side of an equation at a
  solution vector in exact arithmetic.
\<close>

definition exactValue :: "fraction \<Rightarrow> rat" where
  "exactValue f = (if sign f = 1 then - 1 else 1)
     * (of_int (uint (numerator f)) / of_int (uint (denominator f)))"

definition exactRow :: "nat \<Rightarrow> fraction list \<Rightarrow> fraction list \<Rightarrow> rat" where
  "exactRow n row solution = (\<Sum>j\<leftarrow>[0..<n]. exactValue (row ! j) * exactValue (solution ! j))"

text \<open>Two environments: uninitialised locals hold 0, or the fill pattern \<open>0xCCCCCCCC\<close>.\<close>

definition filledWith :: "u32 \<Rightarrow> env" where
  "filledWith v = \<lparr>allocated = True, uninit_add = (\<lambda>_ _ _. v), uninit_total = (\<lambda>_ _. v),
                    uninit_solutionCheck = v\<rparr>"

text \<open>
  One step of the row total of the check: the running sum plus the product of the original
  coefficient in column \<open>j\<close> with the value the reduced matrix holds for unknown \<open>j\<close>.
\<close>

definition totalStep :: "env \<Rightarrow> nat \<Rightarrow> matrix \<Rightarrow> matrix \<Rightarrow> nat \<Rightarrow> fraction \<Rightarrow> nat \<Rightarrow> fraction" where
  "totalStep e n original coeffPtr i summed j =
     fst (add (uninit_total e i j) summed
            (fst (multiply (original ! i ! j) (coeffPtr ! j ! n) False)) False)"

text \<open>
  A call reaches the row-by-row check with the reduced matrix \<open>fst st\<close> when its
  allocations succeed, the reduction falls through, and the last diagonal entry of the
  reduced matrix is not zero.
\<close>

definition reachesCheck :: "env \<Rightarrow> eqsolver \<Rightarrow> matrix \<times> bool \<Rightarrow> bool" where
  "reachesCheck e s st \<longleftrightarrow>
     allocated e
     \<and> reduceColumns e (eqCount s) 0 0 (workingCopy (eqCount s) (originalCoefficient s), False) = Next st
     \<and> \<not> isZero (fst st ! (eqCount s - 1) ! (eqCount s - 1))"

definition candidate :: "nat \<Rightarrow> matrix \<Rightarrow> fraction list" where
  "candidate n coeffPtr = map (\<lambda>j. coeffPtr ! j ! n) [0..<n]"

text \<open>The third example after a successful call.\<close>

definition solvedRows :: eqsolver where
  "solvedRows = independentRows\<lparr>solutionCoefficient :=
     [\<lparr>numerator = 2, denominator = 1, sign = 0\<rparr>, \<lparr>numerator = 1, denominator = 1, sign = 0\<rparr>]\<rparr>"

section \<open>Evaluation\<close>

lemmas fraction_simps = reduce_def multiply_def divide_fraction_def add_def add_signed_def
  add_unsigned_def out_of_int32_def product_sign_def zeroFraction_def
  numeratorWithSign64_def numeratorWithSign32_def UINT32MAX_def INT32MAX_def INT32MIN_def

lemmas status_simps = SOLVED_def NO_SOLUTIONS_def INFINITE_SOLUTIONS_def MEMORY_ERROR_def
  OVERFLOW_def

lemmas solver_simps = store_def swapRows_def multiplyRow_loop.simps multiplyMatrixRow_def
  divideRow_loop.simps divideMatrixRow_def addRows_loop.simps addMatrixRows_def
  isZero_def isOne_def findPivot.simps rowNonZeroFound.simps zeroRowScan.simps fullPivot.simps
  negateRow_loop.simps clearRow_def clearAbove.simps clearBelow.simps clearColumn_def
  reducePivot_def reduceColumns.simps totalRow.simps differs_def checkRows.simps
  checkResult_def copySolution.simps workingCopy_def solveSystem_def

lemmas system_simps = systemOf_def setSystemEqCount_def constructor_def setCoefficient_def
  out_of_bounds_def store_def zeroFraction_def


lemma replicate_numeral: "replicate (numeral k) x = x # replicate (pred_numeral k) x"
  by (simp add: numeral_eq_Suc)

lemma dependentRows_eq:
  "dependentRows =
     \<lparr>coefficient =
        [[\<lparr>numerator = 1, denominator = 1, sign = 0\<rparr>, \<lparr>numerator = 1, denominator = 1, sign = 0\<rparr>,
          \<lparr>numerator = 2, denominator = 1, sign = 0\<rparr>],
         [\<lparr>numerator = 2, denominator = 1, sign = 0\<rparr>, \<lparr>numerator = 2, denominator = 1, sign = 0\<rparr>,
          \<lparr>numerator = 4, denominator = 1, sign = 0\<rparr>]],
      originalCoefficient =
        [[\<lparr>numerator = 1, denominator = 1, sign = 0\<rparr>, \<lparr>numerator = 1, denominator = 1, sign = 0\<rparr>,
          \<lparr>numerator = 2, denominator = 1, sign = 0\<rparr>],
         [\<lparr>numerator = 2, denominator = 1, sign = 0\<rparr>, \<lparr>numerator = 2, denominator = 1, sign = 0\<rparr>,
          \<lparr>numerator = 4, denominator = 1, sign = 0\<rparr>]],
      eqCount = 2, overFlow = False,
      solutionCoefficient = [\<lparr>numerator = 0, denominator = 0, sign = 0\<rparr>,
                             \<lparr>numerator = 0, denominator = 0, sign = 0\<rparr>]\<rparr>"
  by (simp add: dependentRows_def system_simps replicate_numeral Let_def)

lemma contradictoryRows_eq:
  "contradictoryRows =
     \<lparr>coefficient =
        [[\<lparr>numerator = 1, denominator = 1, sign = 0\<rparr>, \<lparr>numerator = 1, denominator = 1, sign = 0\<rparr>,
          \<lparr>numerator = 2, denominator = 1, sign = 0\<rparr>],
         [\<lparr>numerator = 1, denominator = 1, sign = 0\<rparr>, \<lparr>numerator = 1, denominator = 1, sign = 0\<rparr>,
          \<lparr>numerator = 5, denominator = 1, sign = 0\<rparr>]],
      originalCoefficient =
        [[\<lparr>numerator = 1, denominator = 1, sign = 0\<rparr>, \<lparr>numerator = 1, denominator = 1, sign = 0\<rparr>,
          \<lparr>numerator = 2, denominator = 1, sign = 0\<rparr>],
         [\<lparr>numerator = 1, denominator = 1, sign = 0\<rparr>, \<lparr>numerator = 1, denominator = 1, sign = 0\<rparr>,
          \<lparr>numerator = 5, denominator = 1, sign = 0\<rparr>]],
      eqCount = 2, overFlow = False,
      solutionCoefficient = [\<lparr>numerator = 0, denominator = 0, sign = 0\<rparr>,
                             \<lparr>numerator = 0, denominator = 0, sign = 0\<rparr>]\<rparr>"
  by (simp add: contradictoryRows_def system_simps replicate_numeral Let_def)

lemma independentRows_eq:
  "independentRows =
     \<lparr>coefficient =
        [[\<lparr>numerator = 2, denominator = 1, sign = 0\<rparr>, \<lparr>numerator = 1, denominator = 1, sign = 0\<rparr>,
          \<lparr>numerator = 5, denominator = 1, sign = 0\<rparr>],
         [\<lparr>numerator = 1, denominator = 1, sign = 0\<rparr>, \<lparr>numerator = 1, denominator = 1, sign = 1\<rparr>,
          \<lparr>numerator = 1, denominator = 1, sign = 0\<rparr>]],
      originalCoefficient =
        [[\<lparr>numerator = 2, denominator = 1, sign = 0\<rparr>, \<lparr>numerator = 1, denominator = 1, sign = 0\<rparr>,
          \<lparr>numerator = 5, denominator = 1, sign = 0\<rparr>],
         [\<lparr>numerator = 1, denominator = 1, sign = 0\<rparr>, \<lparr>numerator = 1, denominator = 1, sign = 1\<rparr>,
          \<lparr>numerator = 1, denominator = 1, sign = 0\<rparr>]],
      eqCount = 2, overFlow = False,
      solutionCoefficient = [\<lparr>numerator = 0, denominator = 0, sign = 0\<rparr>,
                             \<lparr>numerator = 0, denominator = 0, sign = 0\<rparr>]\<rparr>"
  by (simp add: independentRows_def system_simps replicate_numeral Let_def)

lemma wrappedRows_eq:
  "wrappedRows =
     \<lparr>coefficient =
        [[\<lparr>numerator = 9527, denominator = 1, sign = 0\<rparr>, \<lparr>numerator = 3, denominator = 1, sign = 1\<rparr>,
          \<lparr>numerator = 2, denominator = 1, sign = 1\<rparr>],
         [\<lparr>numerator = 0, denominator = 0, sign = 0\<rparr>, \<lparr>numerator = 493, denominator = 1, sign = 0\<rparr>,
          \<lparr>numerator = 7, denominator = 1, sign = 1\<rparr>]],
      originalCoefficient =
        [[\<lparr>numerator = 9527, denominator = 1, sign = 0\<rparr>, \<lparr>numerator = 3, denominator = 1, sign = 1\<rparr>,
          \<lparr>numerator = 2, denominator = 1, sign = 1\<rparr>],
         [\<lparr>numerator = 0, denominator = 0, sign = 0\<rparr>, \<lparr>numerator = 493, denominator = 1, sign = 0\<rparr>,
          \<lparr>numerator = 7, denominator = 1, sign = 1\<rparr>]],
      eqCount = 2, overFlow = False,
      solutionCoefficient = [\<lparr>numerator = 0, denominator = 0, sign = 0\<rparr>,
                             \<lparr>numerator = 0, denominator = 0, sign = 0\<rparr>]\<rparr>"
  by (simp add: wrappedRows_def system_simps replicate_numeral Let_def)

lemma solve_wrappedRows:
  "allocated e \<Longrightarrow>
   solveSystem e wrappedRows =
     Some (SOLVED, wrappedRows\<lparr>solutionCoefficient :=
             [\<lparr>numerator = 1370527, denominator = 2097392475, sign = 1\<rparr>,
              \<lparr>numerator = 7, denominator = 493, sign = 1\<rparr>]\<rparr>)"
  by (simp add: wrappedRows_eq fraction_simps status_simps solver_simps Let_def)

lemma upt_0_2: "[0..<2::nat] = [0, 1]"
  by (simp add: numeral_2_eq_2)

lemma configured_independentRows: "configured independentRows"
  by (simp add: configured_def independentRows_eq)

lemma solve_dependentRows:
  "allocated e \<Longrightarrow> solveSystem e dependentRows = Some (INFINITE_SOLUTIONS, dependentRows)"
  by (simp add: dependentRows_eq fraction_simps status_simps solver_simps Let_def)

lemma solve_contradictoryRows:
  "allocated e \<Longrightarrow> solveSystem e contradictoryRows = Some (NO_SOLUTIONS, contradictoryRows)"
  by (simp add: contradictoryRows_eq fraction_simps status_simps solver_simps Let_def)

lemma solve_independentRows:
  "allocated e \<Longrightarrow>
   solveSystem e independentRows =
     (if uninit_total e 0 1 = 0
      then Some (SOLVED, independentRows\<lparr>solutionCoefficient :=
                   [\<lparr>numerator = 2, denominator = 1, sign = 0\<rparr>,
                    \<lparr>numerator = 1, denominator = 1, sign = 0\<rparr>]\<rparr>)
      else Some (NO_SOLUTIONS, independentRows))"
  by (simp add: independentRows_eq fraction_simps status_simps solver_simps Let_def)


section \<open>Configured systems\<close>

text \<open>
  Sizing a fresh object for 1 to 32767 equations gives a configured system, and setting
  coefficients keeps it configured.
\<close>

lemma configured_setSystemEqCount:
  "0 < count \<Longrightarrow> count \<le> 32767 \<Longrightarrow> configured (snd (setSystemEqCount True count s))"
  by (simp add: configured_def setSystemEqCount_def)

lemma length_store: "length (store m i j f) = length m"
  by (simp add: store_def)

lemma rows_store:
  assumes "\<forall>r \<in> set m. length r = k"
  shows "\<forall>r \<in> set (store m i j f). length r = k"
proof (cases "i < length m")
  case True
  then have "length ((m ! i)[j := f]) = k"
    using assms by simp
  moreover have "set (store m i j f) \<subseteq> insert ((m ! i)[j := f]) (set m)"
    unfolding store_def by (rule set_update_subset_insert)
  ultimately show ?thesis
    using assms by (metis insert_iff subsetD)
next
  case False
  then have "store m i j f = m"
    by (simp add: store_def list_update_beyond)
  with assms show ?thesis by simp
qed

lemma configured_store:
  assumes "configured s"
  shows "configured (s\<lparr>coefficient := store (coefficient s) i j f,
                         originalCoefficient := store (originalCoefficient s) i j f\<rparr>)"
proof -
  from assms have original: "\<forall>r \<in> set (originalCoefficient s). length r = eqCount s + 1"
    and working: "\<forall>r \<in> set (coefficient s). length r = eqCount s + 1"
    by (simp_all add: configured_def)
  note rows_store [OF original, of i j f] rows_store [OF working, of i j f]
  with assms show ?thesis
    by (simp add: configured_def length_store)
qed

lemma configured_setCoefficient:
  "configured s \<Longrightarrow> configured (setCoefficient row column v s)"
  unfolding setCoefficient_def Let_def by (simp add: configured_store)

lemma configured_setCoefficientFraction:
  "configured s \<Longrightarrow> configured (setCoefficientFraction row column num den s)"
  unfolding setCoefficientFraction_def Let_def by (simp add: configured_store)

section \<open>Fraction arithmetic\<close>

text \<open>
  C8. \<open>reduce\<close> on the three inputs of the specification: 6/9 with sign 0 becomes 2/3
  with sign 0; 0/5 becomes the zero fraction, whatever its sign field; 4/4 with sign 1
  becomes 1/1 with sign 1.
\<close>

theorem reduce_examples:
  "reduce \<lparr>numerator = 6, denominator = 9, sign = 0\<rparr> = \<lparr>numerator = 2, denominator = 3, sign = 0\<rparr>
   \<and> reduce \<lparr>numerator = 0, denominator = 5, sign = s\<rparr> = \<lparr>numerator = 0, denominator = 0, sign = 0\<rparr>
   \<and> reduce \<lparr>numerator = 4, denominator = 4, sign = 1\<rparr> = \<lparr>numerator = 1, denominator = 1, sign = 1\<rparr>"
  by (simp add: reduce_def)

text \<open>
  C1. The numerator product 65537 * 65536 = 4295032832 exceeds 4294967295, yet
  \<open>multiply\<close> leaves the overflow flag clear and returns the product truncated to 32 bits,
  65536/1: the bound it compares with is \<open>UINT32MAX = 42946972195\<close>.
\<close>

theorem multiply_truncates_silently:
  "multiply \<lparr>numerator = 65537, denominator = 1, sign = 0\<rparr>
            \<lparr>numerator = 65536, denominator = 1, sign = 0\<rparr> False
   = (\<lparr>numerator = 65536, denominator = 1, sign = 0\<rparr>, False)"
  by (simp add: fraction_simps)

text \<open>
  C5. Dividing 1/1 by the zero fraction 0/0 does not return the dividend: it returns the
  zero fraction, with the overflow flag as it was. Both computed parts of the result are 0,
  and the guard of \<open>divide\<close> only tests for a non-zero numerator over a zero denominator,
  so it misses the program's own representation of zero.
\<close>

theorem divide_by_zero_fraction:
  "divide_fraction \<lparr>numerator = 1, denominator = 1, sign = 0\<rparr>
                   \<lparr>numerator = 0, denominator = 0, sign = 0\<rparr> False
   = (\<lparr>numerator = 0, denominator = 0, sign = 0\<rparr>, False)"
  by (simp add: fraction_simps)

text \<open>
  What the guard does catch: calls in which neither 64-bit product exceeds \<open>UINT32MAX\<close>
  and the computed numerator is non-zero while the computed denominator is zero. The zero
  written 0/5 is such a divisor, and there the dividend comes back unaltered.
\<close>

lemma divide_guard_fires:
  assumes "\<not> UINT32MAX < (ucast (numerator dividend) :: u64) * ucast (denominator divisor)"
    and "\<not> UINT32MAX < (ucast (denominator dividend) :: u64) * ucast (numerator divisor)"
    and "numerator dividend * denominator divisor \<noteq> 0"
    and "denominator dividend * numerator divisor = 0"
  shows "divide_fraction dividend divisor ovf = (dividend, ovf)"
  using assms by (simp add: divide_fraction_def Let_def)

lemma divide_by_noncanonical_zero:
  "divide_fraction \<lparr>numerator = 3, denominator = 4, sign = 1\<rparr>
                   \<lparr>numerator = 0, denominator = 5, sign = 0\<rparr> False
   = (\<lparr>numerator = 3, denominator = 4, sign = 1\<rparr>, False)"
  by (rule divide_guard_fires) (simp_all add: UINT32MAX_def)

subsection \<open>The signed branch of add\<close>

lemma uint_u32_bound: "uint (w :: u32) < 4294967296"
  using uint_bounded [of w] by simp

lemma signed_take_bit_63_self:
  "- 9223372036854775808 \<le> k \<Longrightarrow> k < 9223372036854775808 \<Longrightarrow> signed_take_bit 63 k = (k :: int)"
  by (simp add: signed_take_bit_int_eq_self)

lemma sint_ucast_u32: "sint (ucast (w :: u32) :: u64) = uint w"
proof -
  have "signed_take_bit 63 (uint w) = uint w"
    using uint_u32_bound [of w] uint_nonnegative [of w]
    by (intro signed_take_bit_63_self) linarith+
  then show ?thesis by (simp add: signed_ucast_eq)
qed

lemma sint_neg_ucast_u32: "sint (- (ucast (w :: u32) :: u64)) = - uint w"
proof -
  have "sint (- (ucast w :: u64)) = signed_take_bit 63 (- sint (ucast w :: u64))"
    by (simp add: sint_word_ariths)
  also have "\<dots> = - uint w"
    unfolding sint_ucast_u32
    using uint_u32_bound [of w] uint_nonnegative [of w]
    by (intro signed_take_bit_63_self) linarith+
  finally show ?thesis .
qed

lemma sint_mult_u64:
  fixes a b :: u64
  assumes "- 9223372036854775808 \<le> sint a * sint b" "sint a * sint b < 9223372036854775808"
  shows "sint (a * b) = sint a * sint b"
  using assms by (simp add: sint_word_ariths signed_take_bit_int_eq_self)

lemma sint_add_u64:
  fixes a b :: u64
  assumes "- 9223372036854775808 \<le> sint a + sint b" "sint a + sint b < 9223372036854775808"
  shows "sint (a + b) = sint a + sint b"
  using assms by (simp add: sint_word_ariths signed_take_bit_int_eq_self)

lemma sint_INT32MAX: "sint INT32MAX = 2147483647"
  by (simp add: INT32MAX_def)

lemma sint_INT32MIN: "sint INT32MIN = - 2147483648"
  by (simp add: INT32MIN_def)

lemma out_of_int32_exact:
  "out_of_int32 w \<longleftrightarrow> \<not> fits_int32 (sint w)"
  by (auto simp: out_of_int32_def fits_int32_def sint_INT32MAX sint_INT32MIN)


lemma sint_numeratorWithSign64:
  "sint (numeratorWithSign64 f) = signed_numerator f"
  by (simp add: numeratorWithSign64_def signed_numerator_def sint_ucast_u32 sint_neg_ucast_u32)

lemma sint_wrapped_product:
  fixes n d :: u32
  assumes "2147483648 \<le> uint n" "d \<noteq> 0"
  shows "out_of_int32 ((ucast n :: u64) * ucast d)"
proof -
  let ?P = "uint n * uint d"
  have d1: "1 \<le> uint d"
  proof -
    have "uint d \<noteq> 0" using assms(2) by (simp add: uint_0_iff)
    then show ?thesis using uint_nonnegative [of d] by linarith
  qed
  have nb: "uint n \<le> 4294967295" and db: "uint d \<le> 4294967295"
    using uint_u32_bound [of n] uint_u32_bound [of d] by simp_all
  have lo: "2147483648 \<le> ?P"
    using assms(1) d1 mult_mono [of 2147483648 "uint n" 1 "uint d"] by simp
  have hi: "?P \<le> 4294967295 * 4294967295"
    using nb db uint_nonnegative [of n] uint_nonnegative [of d]
    by (intro mult_mono) simp_all
  have s: "sint ((ucast n :: u64) * ucast d) = signed_take_bit 63 ?P"
    by (simp add: sint_word_ariths sint_ucast_u32)
  show ?thesis
  proof (cases "?P < 9223372036854775808")
    case True
    then have "signed_take_bit 63 ?P = ?P"
      using lo by (intro signed_take_bit_63_self) linarith+
    then show ?thesis
      using lo by (simp add: out_of_int32_exact s fits_int32_def)
  next
    case False
    define Q where "Q = ?P + 9223372036854775808 - 18446744073709551616"
    have Q: "0 \<le> Q" "Q < 18446744073709551616"
      using False hi by (simp_all add: Q_def)
    have "signed_take_bit 63 ?P = take_bit 64 (?P + 9223372036854775808) - 9223372036854775808"
      by (simp add: signed_take_bit_eq_take_bit_shift)
    also have "take_bit 64 (?P + 9223372036854775808) = (Q + 18446744073709551616) mod 18446744073709551616"
      by (simp add: take_bit_eq_mod Q_def add.commute)
    also have "\<dots> = Q mod 18446744073709551616"
      by simp
    also have "\<dots> = Q"
      using Q by (rule mod_pos_pos_trivial)
    finally have "signed_take_bit 63 ?P = ?P - 18446744073709551616" by (simp add: Q_def)
    then show ?thesis
      using hi by (simp add: out_of_int32_exact s fits_int32_def)
  qed
qed

lemma sint_scaled_numerator:
  assumes "fits_int32 (signed_numerator f)"
  shows "sint (numeratorWithSign64 f * ucast (d :: u32)) = signed_numerator f * uint d"
proof -
  have db: "0 \<le> uint d" "uint d \<le> 4294967295"
    using uint_u32_bound [of d] by simp_all
  have nb: "- 2147483648 \<le> signed_numerator f" "signed_numerator f \<le> 2147483647"
    using assms by (simp_all add: fits_int32_def)
  have lo: "- 2147483648 * 4294967295 \<le> signed_numerator f * uint d"
  proof (cases "0 \<le> signed_numerator f")
    case True
    then have "0 \<le> signed_numerator f * uint d" using db by simp
    then show ?thesis by linarith
  next
    case False
    then have "- signed_numerator f * uint d \<le> 2147483648 * 4294967295"
      using nb db by (intro mult_mono) simp_all
    then show ?thesis by simp
  qed
  have hi: "signed_numerator f * uint d \<le> 2147483647 * 4294967295"
  proof (cases "0 \<le> signed_numerator f")
    case True
    then show ?thesis using nb db by (intro mult_mono) simp_all
  next
    case False
    then have "signed_numerator f * uint d \<le> 0"
      using db by (simp add: mult_le_0_iff)
    then show ?thesis by linarith
  qed
  have "sint (numeratorWithSign64 f * ucast d) = sint (numeratorWithSign64 f) * sint (ucast d :: u64)"
    using lo hi by (intro sint_mult_u64) (simp_all add: sint_numeratorWithSign64 sint_ucast_u32)
  then show ?thesis
    by (simp add: sint_numeratorWithSign64 sint_ucast_u32)
qed

lemma add_signed_overflow:
  assumes d1: "denominator fraction1 \<noteq> 0"
    and violated: "\<not> (fits_int32 (signed_numerator fraction1)
        \<and> fits_int32 (signed_numerator fraction2)
        \<and> fits_int32 (signed_numerator fraction1 * uint (denominator fraction2))
        \<and> fits_int32 (signed_numerator fraction2 * uint (denominator fraction1))
        \<and> fits_int32 (signed_numerator fraction1 * uint (denominator fraction2)
                      + signed_numerator fraction2 * uint (denominator fraction1)))"
  shows "add_signed fraction1 fraction2 = None"
proof (cases "fits_int32 (signed_numerator fraction1)")
  case False
  have "- 2147483648 \<le> uint (numerator fraction1)" "- uint (numerator fraction1) \<le> 2147483647"
    using uint_nonnegative [of "numerator fraction1"] by linarith+
  with False have "if sign fraction1 = 1
      then sint (numeratorWithSign64 fraction1) < sint INT32MIN
      else sint INT32MAX < sint (numeratorWithSign64 fraction1)"
    by (auto simp: sint_numeratorWithSign64 sint_INT32MAX sint_INT32MIN fits_int32_def
        signed_numerator_def)
  then show ?thesis
    by (simp add: add_signed_def Let_def)
next
  case fits1: True
  note p1 = sint_scaled_numerator [OF fits1, of "denominator fraction2"]
  show ?thesis
  proof (cases "fits_int32 (signed_numerator fraction2)")
    case False
    have nonneg2: "- 2147483648 \<le> uint (numerator fraction2)"
      "- uint (numerator fraction2) \<le> 2147483647"
      using uint_nonnegative [of "numerator fraction2"] by linarith+
    show ?thesis
    proof (cases "sign fraction2 = 1")
      case True
      then have "sint (numeratorWithSign64 fraction2) < sint INT32MIN"
        using False nonneg2
        by (auto simp: sint_numeratorWithSign64 sint_INT32MIN fits_int32_def
            signed_numerator_def)
      then show ?thesis
        using True by (simp add: add_signed_def Let_def)
    next
      case positive: False
      then have "2147483648 \<le> uint (numerator fraction2)"
        using False nonneg2
        by (auto simp: fits_int32_def signed_numerator_def)
      then have "out_of_int32 (ucast (numerator fraction2) * ucast (denominator fraction1))"
        using d1 by (rule sint_wrapped_product)
      then have "out_of_int32 (numeratorWithSign64 fraction2 * ucast (denominator fraction1))"
        using positive by (simp add: numeratorWithSign64_def)
      then show ?thesis
        by (simp add: add_signed_def Let_def)
    qed
  next
    case fits2: True
    note p2 = sint_scaled_numerator [OF fits2, of "denominator fraction1"]
    show ?thesis
    proof (cases "fits_int32 (signed_numerator fraction1 * uint (denominator fraction2))
        \<and> fits_int32 (signed_numerator fraction2 * uint (denominator fraction1))")
      case False
      then have "out_of_int32 (numeratorWithSign64 fraction1 * ucast (denominator fraction2))
        \<or> out_of_int32 (numeratorWithSign64 fraction2 * ucast (denominator fraction1))"
        by (auto simp: out_of_int32_exact p1 p2)
      then show ?thesis
        by (auto simp: add_signed_def Let_def)
    next
      case True
      then have "sint (numeratorWithSign64 fraction1 * ucast (denominator fraction2)
          + numeratorWithSign64 fraction2 * ucast (denominator fraction1))
        = signed_numerator fraction1 * uint (denominator fraction2)
          + signed_numerator fraction2 * uint (denominator fraction1)"
        by (subst sint_add_u64) (simp_all add: p1 p2 fits_int32_def)
      moreover have "\<not> fits_int32 (signed_numerator fraction1 * uint (denominator fraction2)
          + signed_numerator fraction2 * uint (denominator fraction1))"
        using violated fits1 fits2 True by simp
      ultimately have "out_of_int32 (numeratorWithSign64 fraction1 * ucast (denominator fraction2)
          + numeratorWithSign64 fraction2 * ucast (denominator fraction1))"
        by (simp add: out_of_int32_exact)
      then show ?thesis
        by (simp add: add_signed_def Let_def)
    qed
  qed
qed


text \<open>
  C9. Two fractions with non-zero denominators and different sign fields: when a signed
  numerator, a signed cross-product or the signed sum of the cross-products lies outside
  the range of a signed 32-bit integer, \<open>add\<close> sets the overflow flag and returns the zero
  fraction.
\<close>

theorem add_differing_signs_overflow:
  assumes "denominator fraction1 \<noteq> 0" and "denominator fraction2 \<noteq> 0"
    and "sign fraction1 \<noteq> sign fraction2"
    and "\<not> (fits_int32 (signed_numerator fraction1)
        \<and> fits_int32 (signed_numerator fraction2)
        \<and> fits_int32 (signed_numerator fraction1 * uint (denominator fraction2))
        \<and> fits_int32 (signed_numerator fraction2 * uint (denominator fraction1))
        \<and> fits_int32 (signed_numerator fraction1 * uint (denominator fraction2)
                      + signed_numerator fraction2 * uint (denominator fraction1)))"
  shows "add uninitialised fraction1 fraction2 ovf = (zeroFraction, True)"
proof -
  have "add_signed fraction1 fraction2 = None"
    using assms(1,4) by (rule add_signed_overflow)
  moreover have "\<not> (sign fraction1 = 0 \<and> sign fraction2 = 0)"
    using assms(3) by auto
  ultimately have "(if sign fraction1 = 0 \<and> sign fraction2 = 0
      then add_unsigned uninitialised fraction1 fraction2
      else add_signed fraction1 fraction2) = None"
    by auto
  then show ?thesis
    using assms(1,2) by (simp add: add_def)
qed

theorem add_differing_signs_overflow_witness:
  "add 0 \<lparr>numerator = 1, denominator = 3, sign = 1\<rparr>
         \<lparr>numerator = 2147483648, denominator = 1, sign = 0\<rparr> False = (zeroFraction, True)"
  using add_differing_signs_overflow [of "\<lparr>numerator = 1, denominator = 3, sign = 1\<rparr>"
      "\<lparr>numerator = 2147483648, denominator = 1, sign = 0\<rparr>" 0 False]
  by (simp add: fits_int32_def signed_numerator_def)

text \<open>
  The hypothesis on the first denominator is needed: with denominator 0 and a non-zero
  numerator (a fraction no operation of the solver produces) a second numerator above
  \<open>INT32MAX\<close> passes, because its own test compares the first numerator again and its
  cross-product is 0.
\<close>

lemma add_second_numerator_unchecked:
  "add 0 \<lparr>numerator = 1, denominator = 0, sign = 1\<rparr>
         \<lparr>numerator = 2147483648, denominator = 1, sign = 0\<rparr> False
   = (\<lparr>numerator = 1, denominator = 0, sign = 1\<rparr>, False)"
  by (simp add: fraction_simps)

section \<open>Setting coefficients\<close>

text \<open>
  C4. With numerator -1 and denominator 0, \<open>setCoefficientFraction\<close> stores numerator 0
  and denominator 0 but sign 1 in both matrices: the sign block runs after the zero
  denominator has been handled and sees a negative numerator with a denominator that is
  not negative.
\<close>

theorem setCoefficientFraction_zero_denominator_sign:
  "coefficient (setCoefficientFraction 1 1 (- 1) 0 (snd (setSystemEqCount True 1 constructor))) ! 0 ! 0
     = \<lparr>numerator = 0, denominator = 0, sign = 1\<rparr>
   \<and> originalCoefficient (setCoefficientFraction 1 1 (- 1) 0 (snd (setSystemEqCount True 1 constructor))) ! 0 ! 0
     = \<lparr>numerator = 0, denominator = 0, sign = 1\<rparr>"
  by (simp add: setCoefficientFraction_def system_simps Let_def)

section \<open>The three example systems\<close>

text \<open>
  C3. The third system, rows [2, 1, 5] and [1, -1, 1]: the check of the first row adds
  4/1 and 1/1, both with sign 0, so the sum carries the uninitialised \<open>result.sign\<close>.
  With the fill pattern \<open>0xCCCCCCCC\<close> in uninitialised locals the sum differs from the
  constant term 5/1 in its sign, and \<open>solveSystem\<close> returns \<open>NO_SOLUTIONS\<close>.
\<close>

theorem solveSystem_independentRows_uninitialised:
  "solveSystem (filledWith 3435973836) independentRows = Some (NO_SOLUTIONS, independentRows)"
  by (simp add: solve_independentRows filledWith_def)


section \<open>Frame and determinism of solveSystem\<close>

lemma solveSystem_frame:
  assumes "solveSystem e s = Some (status, s')"
  shows "originalCoefficient s' = originalCoefficient s"
    and "coefficient s' = coefficient s"
    and "eqCount s' = eqCount s"
  using assms
  by (auto simp: solveSystem_def split: if_splits step.splits prod.splits)

lemma copySolution_append:
  "i \<le> n \<Longrightarrow> length solution = n \<Longrightarrow>
   copySolution n coeffPtr i solution = take i solution @ map (\<lambda>k. coeffPtr ! k ! n) [i..<n]"
proof (induction n coeffPtr i solution rule: copySolution.induct)
  case (1 n coeffPtr i solution)
  show ?case
  proof (cases "i < n")
    case True
    let ?v = "coeffPtr ! i ! n"
    have "copySolution n coeffPtr i solution = copySolution n coeffPtr (i + 1) (solution[i := ?v])"
      using True by (subst copySolution.simps) simp
    also have "\<dots> = take (i + 1) (solution[i := ?v]) @ map (\<lambda>k. coeffPtr ! k ! n) [i + 1..<n]"
      using True "1.prems" by (intro "1.IH") simp_all
    also have "take (i + 1) (solution[i := ?v]) = take i solution @ [?v]"
      using True "1.prems" by (simp add: take_Suc_conv_app_nth)
    finally show ?thesis
      using True by (simp add: upt_conv_Cons)
  next
    case False
    with "1.prems" show ?thesis
      by (subst copySolution.simps) simp
  qed
qed

lemma copySolution_map:
  "length solution = n \<Longrightarrow>
   copySolution n coeffPtr 0 solution = map (\<lambda>k. coeffPtr ! k ! n) [0..<n]"
  by (simp add: copySolution_append)


text \<open>
  C6. A call of \<open>solveSystem\<close> on a configured system, whatever status it returns,
  leaves every value read through \<open>getOriginalMatrixCoefficient\<close> and
  \<open>getOriginalMatrixCoefficientFraction\<close> as it was (for every row and column, in range
  or not).
\<close>

theorem solveSystem_keeps_original:
  assumes "configured s" and "solveSystem e s = Some (status, s')"
  shows "getOriginalMatrixCoefficient s' row column = getOriginalMatrixCoefficient s row column
    \<and> getOriginalMatrixCoefficientFraction s' row column
        = getOriginalMatrixCoefficientFraction s row column"
  using solveSystem_frame [OF assms(2)]
  by (simp add: getOriginalMatrixCoefficient_def getOriginalMatrixCoefficientFraction_def
      out_of_bounds_def)

theorem solveSystem_keeps_original_witness:
  "getOriginalMatrixCoefficient
     (independentRows\<lparr>solutionCoefficient :=
        [\<lparr>numerator = 2, denominator = 1, sign = 0\<rparr>, \<lparr>numerator = 1, denominator = 1, sign = 0\<rparr>]\<rparr>) 2 2
     = getOriginalMatrixCoefficient independentRows 2 2
   \<and> getOriginalMatrixCoefficientFraction
     (independentRows\<lparr>solutionCoefficient :=
        [\<lparr>numerator = 2, denominator = 1, sign = 0\<rparr>, \<lparr>numerator = 1, denominator = 1, sign = 0\<rparr>]\<rparr>) 2 2
     = getOriginalMatrixCoefficientFraction independentRows 2 2"
  using solveSystem_keeps_original [OF configured_independentRows, of "filledWith 0" SOLVED
      "independentRows\<lparr>solutionCoefficient :=
        [\<lparr>numerator = 2, denominator = 1, sign = 0\<rparr>, \<lparr>numerator = 1, denominator = 1, sign = 0\<rparr>]\<rparr>" 2 2]
  by (simp add: solve_independentRows filledWith_def)

text \<open>
  C10. \<open>solveSystem\<close> neither writes nor reads the member matrix \<open>coefficient\<close>: what
  \<open>getAlteredMatrixCoefficient\<close> reads is the same before and after a call, and replacing
  the member matrix by any other changes nothing in the outcome of a call but that matrix.
\<close>

theorem solveSystem_local_working_copy:
  assumes "configured s"
  shows "(solveSystem e s = Some (status, s') \<longrightarrow>
            getAlteredMatrixCoefficient s' row column coefficientValue
            = getAlteredMatrixCoefficient s row column coefficientValue)
    \<and> solveSystem e (s\<lparr>coefficient := m\<rparr>)
        = map_option (\<lambda>(status, t). (status, t\<lparr>coefficient := m\<rparr>)) (solveSystem e s)"
proof
  show "solveSystem e s = Some (status, s') \<longrightarrow>
      getAlteredMatrixCoefficient s' row column coefficientValue
      = getAlteredMatrixCoefficient s row column coefficientValue"
    by (auto simp: getAlteredMatrixCoefficient_def out_of_bounds_def dest: solveSystem_frame)
  show "solveSystem e (s\<lparr>coefficient := m\<rparr>)
      = map_option (\<lambda>(status, t). (status, t\<lparr>coefficient := m\<rparr>)) (solveSystem e s)"
    by (simp add: solveSystem_def split: step.splits prod.splits)
qed

theorem solveSystem_local_working_copy_witness:
  "getAlteredMatrixCoefficient solvedRows 1 1 zeroFraction
     = getAlteredMatrixCoefficient independentRows 1 1 zeroFraction
   \<and> solveSystem (filledWith 0) (independentRows\<lparr>coefficient := []\<rparr>)
       = map_option (\<lambda>(status, t). (status, t\<lparr>coefficient := []\<rparr>))
           (solveSystem (filledWith 0) independentRows)"
  using solveSystem_local_working_copy [OF configured_independentRows,
      of "filledWith 0" SOLVED solvedRows 1 1 zeroFraction "[]"]
  by (simp add: solve_independentRows filledWith_def solvedRows_def)

text \<open>
  What two calls in succession do have in common. When both run in one environment (the
  allocations succeed or fail alike, uninitialised locals hold the same values), the
  second call returns the status of the first, and after the status \<open>SOLVED\<close> it leaves the
  same solution vector: the second call reads only \<open>eqCount\<close> and \<open>originalCoefficient\<close>.
\<close>

lemma solveSystem_same_environment:
  assumes "configured s" and "solveSystem e s = Some (status, s')"
  shows "\<exists>s''. solveSystem e s' = Some (status, s'')
           \<and> (status = SOLVED \<longrightarrow> solutionCoefficient s'' = solutionCoefficient s')"
proof -
  have len: "length (solutionCoefficient s) = eqCount s"
    using assms(1) by (simp add: configured_def)
  show ?thesis
  proof (cases "allocated e")
    case False
    with assms(2) show ?thesis
      by (auto simp: solveSystem_def status_simps)
  next
    case True
    show ?thesis
    proof (cases "reduceColumns e (eqCount s) 0 0
        (workingCopy (eqCount s) (originalCoefficient s), False)")
      case OutOfBounds
      with assms(2) True show ?thesis by (simp add: solveSystem_def)
    next
      case (Return st ovf)
      with assms(2) True show ?thesis by (auto simp: solveSystem_def)
    next
      case (Next st)
      show ?thesis
      proof (cases "checkResult e (eqCount s) (originalCoefficient s) st")
        case OutOfBounds
        with assms(2) True Next show ?thesis by (simp add: solveSystem_def)
      next
        case (Return st' ovf)
        with assms(2) True Next show ?thesis by (auto simp: solveSystem_def)
      next
        case inner: (Next r)
        with assms(2) True Next len show ?thesis
          by (auto simp: solveSystem_def copySolution_map split: prod.splits)
      qed
    qed
  qed
qed


lemma solve_solvedRows:
  "allocated e \<Longrightarrow>
   solveSystem e solvedRows =
     (if uninit_total e 0 1 = 0 then Some (SOLVED, solvedRows)
      else Some (NO_SOLUTIONS, solvedRows))"
  by (simp add: solvedRows_def independentRows_eq fraction_simps status_simps solver_simps Let_def)

text \<open>
  C7. Two calls in succession on the system with rows [2, 1, 5] and [1, -1, 1], no
  coefficient changed in between. The first call finds 0 in the uninitialised
  \<open>result.sign\<close> of \<open>add\<close> and returns \<open>SOLVED\<close>; the second finds the fill pattern
  \<open>0xCCCCCCCC\<close> there and returns \<open>NO_SOLUTIONS\<close>.
\<close>

theorem solveSystem_twice_differs:
  "solveSystem (filledWith 0) independentRows = Some (SOLVED, solvedRows)
   \<and> solveSystem (filledWith 3435973836) solvedRows = Some (NO_SOLUTIONS, solvedRows)"
proof
  show "solveSystem (filledWith 0) independentRows = Some (SOLVED, solvedRows)"
    by (simp add: solve_independentRows filledWith_def solvedRows_def)
  have "allocated (filledWith 3435973836)" and "uninit_total (filledWith 3435973836) 0 1 \<noteq> 0"
    by (simp_all add: filledWith_def)
  then show "solveSystem (filledWith 3435973836) solvedRows = Some (NO_SOLUTIONS, solvedRows)"
    by (simp add: solve_solvedRows)
qed

text \<open>
  \<open>solveSystem\<close> never frees its working copy, so the allocations of a later call can
  fail where those of the first succeeded; the status is then \<open>MEMORY_ERROR\<close>.
\<close>

lemma solveSystem_second_allocation_fails:
  "solveSystem (filledWith 0) independentRows = Some (SOLVED, solvedRows)
   \<and> solveSystem ((filledWith 0)\<lparr>allocated := False\<rparr>) solvedRows
       = Some (MEMORY_ERROR, solvedRows)"
proof
  show "solveSystem (filledWith 0) independentRows = Some (SOLVED, solvedRows)"
    by (simp add: solve_independentRows filledWith_def solvedRows_def)
  have "overFlow solvedRows = False"
    by (simp add: solvedRows_def independentRows_eq)
  then have "solvedRows\<lparr>overFlow := False\<rparr> = solvedRows"
    by simp
  then show "solveSystem ((filledWith 0)\<lparr>allocated := False\<rparr>) solvedRows
      = Some (MEMORY_ERROR, solvedRows)"
    by (simp add: solveSystem_def filledWith_def)
qed

section \<open>The check against the original matrix\<close>

lemma multiply_fst_flag: "fst (multiply a b ovf) = fst (multiply a b False)"
  by (simp add: multiply_def Let_def)

lemma add_fst_flag: "fst (add u a b ovf) = fst (add u a b False)"
  by (simp add: add_def Let_def split: option.splits prod.splits)

lemma add_zero_left:
  "add u \<lparr>numerator = 0, denominator = 0, sign = s\<rparr> b ovf = (b, ovf)"
  by (simp add: add_def)

lemma not_differs: "\<not> differs a b \<longleftrightarrow> a = b"
  by (cases a, cases b) (auto simp: differs_def)

lemma totalRow_Return:
  "totalRow e n original coeffPtr i j st = Return status ovf \<Longrightarrow> status = OVERFLOW"
proof (induction e n original coeffPtr i j st rule: totalRow.induct)
  case (1 e n original coeffPtr i j solutionCheck ovf')
  from "1.prems" have less: "j < n"
    by (subst (asm) totalRow.simps) (simp split: if_splits)
  obtain product ovf1 where m: "multiply (original ! i ! j) (coeffPtr ! j ! n) ovf' = (product, ovf1)"
    by (cases "multiply (original ! i ! j) (coeffPtr ! j ! n) ovf'")
  obtain summed ovf2 where a: "add (uninit_total e i j) solutionCheck product ovf1 = (summed, ovf2)"
    by (cases "add (uninit_total e i j) solutionCheck product ovf1")
  show ?case
  proof (cases ovf2)
    case True
    with "1.prems" less m a show ?thesis
      by (subst (asm) totalRow.simps) simp
  next
    case False
    with "1.prems" less m a
    have "totalRow e n original coeffPtr i (j + 1) (summed, ovf2) = Return status ovf"
      by (subst (asm) totalRow.simps) simp
    with "1.IH" [OF less m [symmetric] a [symmetric] False] show ?thesis .
  qed
qed

lemma totalRow_Next:
  "totalRow e n original coeffPtr i j (solutionCheck, ovf) = Next (solutionCheck', ovf') \<Longrightarrow>
   solutionCheck' = foldl (totalStep e n original coeffPtr i) solutionCheck [j..<n]"
proof (induction e n original coeffPtr i j "(solutionCheck, ovf)"
    arbitrary: solutionCheck ovf rule: totalRow.induct)
  case (1 e n original coeffPtr i j solutionCheck ovf)
  show ?case
  proof (cases "j < n")
    case False
    with "1.prems" show ?thesis
      by (subst (asm) totalRow.simps) simp
  next
    case True
    obtain product ovf1 where m: "multiply (original ! i ! j) (coeffPtr ! j ! n) ovf = (product, ovf1)"
      by (cases "multiply (original ! i ! j) (coeffPtr ! j ! n) ovf")
    obtain summed ovf2 where a: "add (uninit_total e i j) solutionCheck product ovf1 = (summed, ovf2)"
      by (cases "add (uninit_total e i j) solutionCheck product ovf1")
    from "1.prems" True m a have cont: "\<not> ovf2"
      and rest: "totalRow e n original coeffPtr i (j + 1) (summed, ovf2) = Next (solutionCheck', ovf')"
      by (subst (asm) totalRow.simps, simp split: if_splits)+
    have "solutionCheck' = foldl (totalStep e n original coeffPtr i) summed [j + 1..<n]"
      using "1.hyps" [OF True m [symmetric] a [symmetric] cont rest] .
    moreover have "summed = totalStep e n original coeffPtr i solutionCheck j"
    proof -
      have "product = fst (multiply (original ! i ! j) (coeffPtr ! j ! n) False)"
        using m multiply_fst_flag [of "original ! i ! j" "coeffPtr ! j ! n" ovf] by simp
      moreover have "summed = fst (add (uninit_total e i j) solutionCheck product False)"
        using a add_fst_flag [of "uninit_total e i j" solutionCheck product ovf1] by simp
      ultimately show ?thesis by (simp add: totalStep_def)
    qed
    ultimately show ?thesis
      using True by (simp add: upt_conv_Cons)
  qed
qed


lemma total_from_zero:
  assumes "0 < n"
  shows "foldl (totalStep e n original coeffPtr i) (solutionCheck\<lparr>numerator := 0, denominator := 0\<rparr>) [0..<n]
    = foldl (totalStep e n original coeffPtr i) zeroFraction [0..<n]"
proof -
  have "totalStep e n original coeffPtr i (solutionCheck\<lparr>numerator := 0, denominator := 0\<rparr>) 0
      = totalStep e n original coeffPtr i zeroFraction 0"
    by (cases solutionCheck) (simp add: totalStep_def add_zero_left zeroFraction_def)
  then show ?thesis
    using assms by (simp add: upt_conv_Cons)
qed

lemma checkRows_Return:
  "checkRows e n original coeffPtr i st = Return status ovf \<Longrightarrow>
   status = OVERFLOW \<or> status = NO_SOLUTIONS"
proof (induction e n original coeffPtr i st rule: checkRows.induct)
  case (1 e n original coeffPtr i solutionCheck ovf')
  from "1.prems" have less: "i < n"
    by (subst (asm) checkRows.simps) (simp split: if_splits)
  show ?case
  proof (cases "totalRow e n original coeffPtr i 0
      (solutionCheck\<lparr>numerator := 0, denominator := 0\<rparr>, ovf')")
    case OutOfBounds
    with "1.prems" less show ?thesis
      by (subst (asm) checkRows.simps) simp
  next
    case (Return status' ovf'')
    moreover from "1.prems" less Return have "status = status'"
      by (subst (asm) checkRows.simps) simp
    ultimately show ?thesis
      by (simp add: totalRow_Return)
  next
    case (Next found)
    obtain summed ovf1 where found: "found = (summed, ovf1)"
      by (cases found)
    show ?thesis
    proof (cases "differs summed (original ! i ! n)")
      case True
      with "1.prems" less Next found show ?thesis
        by (subst (asm) checkRows.simps) simp
    next
      case False
      with "1.prems" less Next found
      have "checkRows e n original coeffPtr (i + 1) (summed, ovf1) = Return status ovf"
        by (subst (asm) checkRows.simps) simp
      with "1.IH" [OF less Next [unfolded found] refl False] show ?thesis .
    qed
  qed
qed

lemma checkRows_Next:
  "checkRows e n original coeffPtr i (solutionCheck, ovf) = Next r \<Longrightarrow> i \<le> k \<Longrightarrow> k < n \<Longrightarrow>
   foldl (totalStep e n original coeffPtr k) zeroFraction [0..<n] = original ! k ! n"
proof (induction e n original coeffPtr i "(solutionCheck, ovf)"
    arbitrary: solutionCheck ovf rule: checkRows.induct)
  case (1 e n original coeffPtr i solutionCheck ovf)
  from "1.prems" have less: "i < n" by simp
  obtain summed ovf' where
    row: "totalRow e n original coeffPtr i 0 (solutionCheck\<lparr>numerator := 0, denominator := 0\<rparr>, ovf)
      = Next (summed, ovf')"
    and same: "\<not> differs summed (original ! i ! n)"
    and rest: "checkRows e n original coeffPtr (i + 1) (summed, ovf') = Next r"
    using "1.prems"(1) less
    by (subst (asm) checkRows.simps) (auto split: if_splits step.splits prod.splits)
  show ?case
  proof (cases "k = i")
    case True
    have "summed = foldl (totalStep e n original coeffPtr i)
        (solutionCheck\<lparr>numerator := 0, denominator := 0\<rparr>) [0..<n]"
      using row by (rule totalRow_Next)
    also have "\<dots> = foldl (totalStep e n original coeffPtr i) zeroFraction [0..<n]"
      using less by (intro total_from_zero) simp
    finally show ?thesis
      using same True by (simp add: not_differs)
  next
    case False
    with "1.prems" have "i + 1 \<le> k" by simp
    with "1.hyps" [OF less row refl same rest] "1.prems"(3) show ?thesis
      by simp
  qed
qed

lemma substitute_candidate:
  assumes "\<And>j. j < n \<Longrightarrow> solution ! j = coeffPtr ! j ! n"
  shows "substitute (uninit_total e i) n (original ! i) solution
    = foldl (totalStep e n original coeffPtr i) zeroFraction [0..<n]"
  unfolding substitute_def
  by (rule foldl_cong) (simp_all add: totalStep_def assms)

subsection \<open>Which statuses each part can return\<close>

lemma clearRow_Return:
  "clearRow e n row column rowCounter st = Return status ovf \<Longrightarrow> status = OVERFLOW"
  unfolding clearRow_def Let_def by (simp split: if_splits)

lemma clearAbove_Return:
  "clearAbove e n row column rowCounter st = Return status ovf \<Longrightarrow> status = OVERFLOW"
proof (induction e n row column rowCounter st rule: clearAbove.induct)
  case (1 e n row column rowCounter st)
  from "1.prems" have cond: "rowCounter \<ge> 0"
    by (subst (asm) clearAbove.simps) (simp split: if_splits)
  show ?case
  proof (cases "clearRow e n row column (nat rowCounter) st")
    case OutOfBounds
    with "1.prems" cond show ?thesis
      by (subst (asm) clearAbove.simps) simp
  next
    case (Return status' ovf')
    moreover from "1.prems" cond Return have "status = status'"
      by (subst (asm) clearAbove.simps) simp
    ultimately show ?thesis
      by (simp add: clearRow_Return)
  next
    case (Next st')
    with "1.prems" cond
    have "clearAbove e n row column (rowCounter - 1) st' = Return status ovf"
      by (subst (asm) clearAbove.simps) simp
    with "1.IH" [OF cond Next] show ?thesis .
  qed
qed

lemma clearBelow_Return:
  "clearBelow e n row column rowCounter st = Return status ovf \<Longrightarrow> status = OVERFLOW"
proof (induction e n row column rowCounter st rule: clearBelow.induct)
  case (1 e n row column rowCounter st)
  from "1.prems" have cond: "rowCounter < n"
    by (subst (asm) clearBelow.simps) (simp split: if_splits)
  show ?case
  proof (cases "clearRow e n row column (rowCounter) st")
    case OutOfBounds
    with "1.prems" cond show ?thesis
      by (subst (asm) clearBelow.simps) simp
  next
    case (Return status' ovf')
    moreover from "1.prems" cond Return have "status = status'"
      by (subst (asm) clearBelow.simps) simp
    ultimately show ?thesis
      by (simp add: clearRow_Return)
  next
    case (Next st')
    with "1.prems" cond
    have "clearBelow e n row column (rowCounter + 1) st' = Return status ovf"
      by (subst (asm) clearBelow.simps) simp
    with "1.IH" [OF cond Next] show ?thesis .
  qed
qed

lemma clearColumn_Return:
  assumes "clearColumn e n row column st = Return status ovf"
  shows "status = OVERFLOW"
proof (cases "clearAbove e n row column (int row - 1) (negateRow_loop n row 0 (fst st), snd st)")
  case OutOfBounds
  with assms show ?thesis by (simp add: clearColumn_def)
next
  case (Return status' ovf')
  with assms clearAbove_Return [OF Return] show ?thesis by (simp add: clearColumn_def)
next
  case (Next st1)
  show ?thesis
  proof (cases "clearBelow e n row column (row + 1) st1")
    case OutOfBounds
    with assms Next show ?thesis by (simp add: clearColumn_def)
  next
    case (Return status' ovf')
    with assms Next clearBelow_Return [OF Return] show ?thesis by (simp add: clearColumn_def)
  next
    case inner: (Next st2)
    with assms Next show ?thesis by (simp add: clearColumn_def)
  qed
qed

lemma reducePivot_Return:
  assumes "reducePivot e n row column st = Return status ovf"
  shows "status = OVERFLOW"
proof (cases "isOne (fst st ! row ! column)")
  case True
  with assms show ?thesis
    by (simp add: reducePivot_def clearColumn_Return)
next
  case False
  show ?thesis
  proof (cases "snd (divideMatrixRow n (row + 1) (fst st ! row ! column) st)")
    case True
    with assms False show ?thesis by (simp add: reducePivot_def Let_def)
  next
    case no_overflow: False
    with assms False show ?thesis
      by (simp add: reducePivot_def Let_def clearColumn_Return)
  qed
qed

lemma zeroRowScan_status:
  "zeroRowScan n coeffPtr row = INFINITE_SOLUTIONS \<or> zeroRowScan n coeffPtr row = NO_SOLUTIONS"
proof (induction n coeffPtr row rule: zeroRowScan.induct)
  case (1 n coeffPtr row)
  show ?case
  proof (cases "row < n \<and> rowNonZeroFound n coeffPtr row 0 False")
    case True
    with "1.IH" show ?thesis by (subst (1 2) zeroRowScan.simps) simp
  next
    case False
    then show ?thesis by (subst (1 2) zeroRowScan.simps) auto
  qed
qed

lemma fullPivot_Return:
  "fullPivot n coeffPtr row column = Return status ovf \<Longrightarrow>
   status = INFINITE_SOLUTIONS \<or> status = NO_SOLUTIONS"
proof (induction n coeffPtr row column rule: fullPivot.induct)
  case (1 n coeffPtr row column)
  show ?case
  proof (cases "findPivot n coeffPtr column (row + 1)")
    case (Some rowCounter)
    with "1.prems" show ?thesis by (subst (asm) fullPivot.simps) simp
  next
    case None
    show ?thesis
    proof (cases "column + 1 = n")
      case True
      with "1.prems" None zeroRowScan_status [of n coeffPtr 0] show ?thesis
        by (subst (asm) fullPivot.simps) (auto split: if_splits)
    next
      case False
      with "1.prems" None have "column + 1 < n"
        and "fullPivot n coeffPtr row (column + 1) = Return status ovf"
        by (subst (asm) fullPivot.simps, simp split: if_splits)+
      with "1.IH" [OF None False] show ?thesis by simp
    qed
  qed
qed

lemma reduceColumns_Return:
  "reduceColumns e n row column st = Return status ovf \<Longrightarrow>
   status = INFINITE_SOLUTIONS \<or> status = NO_SOLUTIONS \<or> status = OVERFLOW"
proof (induction e n row column st rule: reduceColumns.induct)
  case (1 e n row column st)
  from "1.prems" have less: "column < n"
    by (subst (asm) reduceColumns.simps) (simp split: if_splits)
  let ?pivot = "if isZero (fst st ! row ! column) then fullPivot n (fst st) row column
                else Next (fst st, column)"
  show ?case
  proof (cases ?pivot)
    case OutOfBounds
    with "1.prems" less show ?thesis
      by (subst (asm) reduceColumns.simps) simp
  next
    case (Return status' ovf')
    then have "status' = INFINITE_SOLUTIONS \<or> status' = NO_SOLUTIONS"
      by (auto split: if_splits dest: fullPivot_Return)
    moreover from "1.prems" less Return have "status = status'"
      by (subst (asm) reduceColumns.simps) simp
    ultimately show ?thesis by blast
  next
    case (Next found)
    obtain coeffPtr column' where found: "found = (coeffPtr, column')"
      by (cases found)
    show ?thesis
    proof (cases "reducePivot e n row column' (coeffPtr, snd st)")
      case OutOfBounds
      with "1.prems" less Next found show ?thesis
        by (subst (asm) reduceColumns.simps) simp
    next
      case (Return status' ovf')
      moreover from "1.prems" less Next found Return have "status = status'"
        by (subst (asm) reduceColumns.simps) simp
      ultimately show ?thesis
        by (simp add: reducePivot_Return)
    next
      case inner: (Next st')
      from "1.prems" less Next found inner
      have "reduceColumns e n (row + 1) (column' + 1) st' = Return status ovf"
        by (subst (asm) reduceColumns.simps) simp
      with "1.IH" [OF less Next [unfolded found] refl inner] show ?thesis .
    qed
  qed
qed


lemma checkResult_Return:
  assumes "checkResult e n original st = Return status ovf"
  shows "status = INFINITE_SOLUTIONS \<or> status = NO_SOLUTIONS \<or> status = OVERFLOW"
proof (cases "n = 0 \<or> isZero (fst st ! (n - 1) ! (n - 1))")
  case True
  with assms show ?thesis
    by (auto simp: checkResult_def split: if_splits)
next
  case False
  with assms have "checkRows e n original (fst st) 0
      (\<lparr>numerator = 0, denominator = 0, sign = uninit_solutionCheck e\<rparr>, snd st) = Return status ovf"
    by (simp add: checkResult_def)
  then show ?thesis
    by (auto dest: checkRows_Return)
qed

lemma checkResult_Next:
  assumes "checkResult e n original st = Next r"
  shows "checkRows e n original (fst st) 0
      (\<lparr>numerator = 0, denominator = 0, sign = uninit_solutionCheck e\<rparr>, snd st) = Next r"
  using assms by (simp add: checkResult_def split: if_splits)

lemma SOLVED_distinct:
  "SOLVED \<noteq> INFINITE_SOLUTIONS" "SOLVED \<noteq> NO_SOLUTIONS" "SOLVED \<noteq> OVERFLOW"
  "SOLVED \<noteq> MEMORY_ERROR"
  by (simp_all add: status_simps)

lemma solveSystem_SOLVED:
  assumes "solveSystem e s = Some (SOLVED, s')"
  obtains st r where "allocated e"
    and "reduceColumns e (eqCount s) 0 0 (workingCopy (eqCount s) (originalCoefficient s), False) = Next st"
    and "checkResult e (eqCount s) (originalCoefficient s) st = Next r"
    and "solutionCoefficient s' = copySolution (eqCount s) (fst st) 0 (solutionCoefficient s)"
proof -
  from assms have alloc: "allocated e"
    by (auto simp: solveSystem_def status_simps split: if_splits)
  show thesis
  proof (cases "reduceColumns e (eqCount s) 0 0
      (workingCopy (eqCount s) (originalCoefficient s), False)")
    case OutOfBounds
    with assms alloc show ?thesis by (simp add: solveSystem_def)
  next
    case (Return status ovf)
    with assms alloc reduceColumns_Return [OF Return] show ?thesis
      by (auto simp: solveSystem_def SOLVED_distinct)
  next
    case (Next st)
    show ?thesis
    proof (cases "checkResult e (eqCount s) (originalCoefficient s) st")
      case OutOfBounds
      with assms alloc Next show ?thesis by (simp add: solveSystem_def)
    next
      case (Return status ovf)
      with assms alloc Next checkResult_Return [OF Return] show ?thesis
        by (auto simp: solveSystem_def SOLVED_distinct)
    next
      case inner: (Next r)
      with assms alloc Next have
        "solutionCoefficient s' = copySolution (eqCount s) (fst st) 0 (solutionCoefficient s)"
        by (auto simp: solveSystem_def split: prod.splits)
      with alloc Next inner show ?thesis by (rule that)
    qed
  qed
qed

text \<open>
  What the check does establish. When \<open>solveSystem\<close> returns \<open>SOLVED\<close>, every row of the
  original matrix, summed with the program's own \<open>multiply\<close> and \<open>add\<close> (in the environment
  of the call) at the solution vector, gives the row's constant term. And when a call
  reaches the row-by-row check, is not aborted by an overflow, and the sum of some row
  differs from its constant term, the status is \<open>NO_SOLUTIONS\<close>.
\<close>

lemma solveSystem_check:
  assumes "configured s" and "solveSystem e s = Some (status, s')"
  shows "(status = SOLVED \<longrightarrow>
           (\<forall>i<eqCount s.
              substitute (uninit_total e i) (eqCount s) (originalCoefficient s ! i)
                (solutionCoefficient s') = originalCoefficient s ! i ! eqCount s))
    \<and> (\<forall>st. reachesCheck e s st \<and> status \<noteq> OVERFLOW
           \<and> (\<exists>i<eqCount s.
                 substitute (uninit_total e i) (eqCount s) (originalCoefficient s ! i)
                   (candidate (eqCount s) (fst st)) \<noteq> originalCoefficient s ! i ! eqCount s)
           \<longrightarrow> status = NO_SOLUTIONS)"
proof (intro conjI impI allI)
  fix i
  assume solved: "status = SOLVED" and i: "i < eqCount s"
  from assms(2) solved obtain st r where
    check: "checkResult e (eqCount s) (originalCoefficient s) st = Next r"
    and solution: "solutionCoefficient s' = copySolution (eqCount s) (fst st) 0 (solutionCoefficient s)"
    by (auto elim: solveSystem_SOLVED)
  have "length (solutionCoefficient s) = eqCount s"
    using assms(1) by (simp add: configured_def)
  with solution have "solutionCoefficient s' = map (\<lambda>k. fst st ! k ! eqCount s) [0..<eqCount s]"
    by (simp add: copySolution_map)
  then have "substitute (uninit_total e i) (eqCount s) (originalCoefficient s ! i)
      (solutionCoefficient s')
    = foldl (totalStep e (eqCount s) (originalCoefficient s) (fst st) i) zeroFraction [0..<eqCount s]"
    by (intro substitute_candidate) simp
  also have "\<dots> = originalCoefficient s ! i ! eqCount s"
    using checkResult_Next [OF check] i
    by (cases r) (auto dest: checkRows_Next [where k = i])
  finally show "substitute (uninit_total e i) (eqCount s) (originalCoefficient s ! i)
      (solutionCoefficient s') = originalCoefficient s ! i ! eqCount s" .
next
  fix st
  assume prems: "reachesCheck e s st \<and> status \<noteq> OVERFLOW
    \<and> (\<exists>i<eqCount s.
          substitute (uninit_total e i) (eqCount s) (originalCoefficient s ! i)
            (candidate (eqCount s) (fst st)) \<noteq> originalCoefficient s ! i ! eqCount s)"
  then obtain i where i: "i < eqCount s"
    and mismatch: "substitute (uninit_total e i) (eqCount s) (originalCoefficient s ! i)
        (candidate (eqCount s) (fst st)) \<noteq> originalCoefficient s ! i ! eqCount s"
    by blast
  let ?start = "(\<lparr>numerator = 0, denominator = 0, sign = uninit_solutionCheck e\<rparr>, snd st)"
  from prems i have check: "checkResult e (eqCount s) (originalCoefficient s) st
      = checkRows e (eqCount s) (originalCoefficient s) (fst st) 0 ?start"
    by (simp add: reachesCheck_def checkResult_def)
  have total: "substitute (uninit_total e i) (eqCount s) (originalCoefficient s ! i)
      (candidate (eqCount s) (fst st))
    = foldl (totalStep e (eqCount s) (originalCoefficient s) (fst st) i) zeroFraction [0..<eqCount s]"
    by (intro substitute_candidate) (simp add: candidate_def)
  show "status = NO_SOLUTIONS"
  proof (cases "checkRows e (eqCount s) (originalCoefficient s) (fst st) 0 ?start")
    case OutOfBounds
    with assms(2) prems check show ?thesis
      by (simp add: solveSystem_def reachesCheck_def)
  next
    case (Return status' ovf)
    with assms(2) prems check have "status = status'"
      by (auto simp: solveSystem_def reachesCheck_def)
    with checkRows_Return [OF Return] prems show ?thesis by simp
  next
    case (Next r)
    then have "foldl (totalStep e (eqCount s) (originalCoefficient s) (fst st) i) zeroFraction
        [0..<eqCount s] = originalCoefficient s ! i ! eqCount s"
      using i by (auto dest: checkRows_Next [where k = i])
    with mismatch total show ?thesis by simp
  qed
qed


text \<open>
  C2. The system 9527 x - 3 y = -2, 493 y = -7 is answered \<open>SOLVED\<close> with
  x = -1370527/2097392475 and y = -7/493, in every environment whose allocations succeed.
  In exact arithmetic the first equation then evaluates to -6393061047422/1034014490175,
  not to its constant term -2 (the exact solution has x = -1007/4696811). Two products
  above \<open>2 ^ 32 - 1\<close> pass the comparison with \<open>UINT32MAX\<close> and are truncated: the
  denominator 9527 * 670973 in \<open>add\<close> during the elimination, and the numerator
  9527 * 1370527 in \<open>multiply\<close> during the check.
\<close>

theorem solveSystem_solved_with_wrong_solution:
  "solveSystem (filledWith 0) wrappedRows =
     Some (SOLVED, wrappedRows\<lparr>solutionCoefficient :=
             [\<lparr>numerator = 1370527, denominator = 2097392475, sign = 1\<rparr>,
              \<lparr>numerator = 7, denominator = 493, sign = 1\<rparr>]\<rparr>)
   \<and> exactRow 2 (originalCoefficient wrappedRows ! 0)
         [\<lparr>numerator = 1370527, denominator = 2097392475, sign = 1\<rparr>,
          \<lparr>numerator = 7, denominator = 493, sign = 1\<rparr>]
       = - (6393061047422 / 1034014490175)
   \<and> exactValue (originalCoefficient wrappedRows ! 0 ! 2) = - 2
   \<and> exactRow 2 (originalCoefficient wrappedRows ! 0)
         [\<lparr>numerator = 1370527, denominator = 2097392475, sign = 1\<rparr>,
          \<lparr>numerator = 7, denominator = 493, sign = 1\<rparr>]
       \<noteq> exactValue (originalCoefficient wrappedRows ! 0 ! 2)"
proof -
  have "allocated (filledWith 0)"
    by (simp add: filledWith_def)
  then have "solveSystem (filledWith 0) wrappedRows =
     Some (SOLVED, wrappedRows\<lparr>solutionCoefficient :=
             [\<lparr>numerator = 1370527, denominator = 2097392475, sign = 1\<rparr>,
              \<lparr>numerator = 7, denominator = 493, sign = 1\<rparr>]\<rparr>)"
    by (rule solve_wrappedRows)
  moreover have "exactRow 2 (originalCoefficient wrappedRows ! 0)
         [\<lparr>numerator = 1370527, denominator = 2097392475, sign = 1\<rparr>,
          \<lparr>numerator = 7, denominator = 493, sign = 1\<rparr>]
       = - (6393061047422 / 1034014490175)"
    by (simp add: exactRow_def exactValue_def wrappedRows_eq upt_0_2)
  moreover have "exactValue (originalCoefficient wrappedRows ! 0 ! 2) = - 2"
    by (simp add: exactValue_def wrappedRows_eq)
  ultimately show ?thesis by simp
qed


end
